theory Spec2Isabelle
  imports Complex_Main "HOL-Library.Sublist"
begin

section \<open>The vectorizers notebook (docs/user\_guide/vectorizers\_04.ipynb)\<close>

text \<open>
  The notebook is a straight-line script: cells of Python statements, run from top to
  bottom in one kernel. Every substantive operation is a call into a library or a service
  (the environment, \<^verbatim>\<open>getpass\<close>, the vectorizer classes, the search index, the shell).
  The model keeps the kernel's namespace and environment as a record, logs every such call
  as an event, and takes what the outside world answers (and whether a call raises) from a
  \<open>world\<close> parameter. A statement is a function on the kernel state; an exception stops
  the run, as it does on "Run All". The vectorizer and index classes are not part of the
  notebook; what the claims need of them is modelled in the subsection on the library.
\<close>

subsection \<open>Values\<close>

datatype provider = OpenAI | AzureOpenAI | HuggingFace | VertexAI | Cohere

text \<open>An embedding is a list of floats or a bytes buffer. The floats are kept as the
  rationals their printed form denotes, the bytes as numbers.\<close>

datatype embedding = Floats "rat list" | Buffer "nat list"

fun len :: "embedding \<Rightarrow> nat" where
  "len (Floats xs) = length xs"
| "len (Buffer bs) = length bs"

text \<open>The slice \<^verbatim>\<open>v[:10]\<close>.\<close>

fun slice10 :: "embedding \<Rightarrow> embedding" where
  "slice10 (Floats xs) = Floats (take 10 xs)"
| "slice10 (Buffer bs) = Buffer (take 10 bs)"

datatype pyval = S string | N rat | E embedding | L "pyval list"

text \<open>A dict with string keys, in insertion order.\<close>

type_synonym pydict = "(string \<times> pyval) list"

text \<open>A vectorizer object: its class, the \<^verbatim>\<open>model=\<close> argument and the
  \<^verbatim>\<open>api_config=\<close> dict it was built with.\<close>

datatype client = Client (cls: provider) (model: "string option") (api_config: "(string \<times> string) list")

text \<open>An index schema, as a YAML schema file describes it.\<close>

record vector_attrs =
  dims :: nat
  algorithm :: string
  distance_metric :: string

record field_decl =
  name :: string
  type :: string
  attrs :: "vector_attrs option"

record index_decl =
  index_name :: string
  key_prefix :: string
  storage_type :: string

record schema =
  version :: string
  index_spec :: index_decl
  field_decls :: "field_decl list"

text \<open>A search index object: the schema it was built from.\<close>

datatype search_index = SearchIndex (index_schema: schema)

datatype vector_query = VectorQuery (vector: embedding) (vector_field_name: string)
  (return_fields: "string list") (num_results: nat)

subsection \<open>Events: the calls the notebook makes\<close>

datatype event =
    Import string
  | EnvGet string "string option"
  | EnvSet string string
  | Getpass string
  | Construct client
  | CallEmbed client string "string option" "bool option"
  | CallEmbedMany client "string list" "bool option"
  | CallAEmbedMany client "string list"
  | FromYaml string
  | Connect search_index string
  | Create search_index bool
  | Shell string
  | Load search_index "pydict list"
  | NewQuery vector_query
  | RunQuery search_index vector_query
  | Delete search_index

text \<open>
  \<open>EnvGet name default\<close> is \<^verbatim>\<open>os.environ.get(name[, default])\<close>;
  \<open>CallEmbed c text input_type as_buffer\<close> is \<^verbatim>\<open>c.embed(text, ...)\<close> with the keyword
  arguments that are passed (\<open>None\<close> when the keyword is not written);
  \<open>CallAEmbedMany\<close> is the awaited \<^verbatim>\<open>aembed_many\<close>; \<open>Shell\<close> is an IPython
  \<^verbatim>\<open>!\<close> line.
\<close>

datatype exn = Failure string | IndexError | KeyError string

datatype status = Running | Raised exn

datatype cell_output = Print "pyval list" | Display pyval

subsection \<open>The outside world\<close>

record world =
  env0 :: "string \<Rightarrow> string option"
  typed :: "string \<Rightarrow> string"
  fails :: "event \<Rightarrow> exn option"
  embed_res :: "event \<Rightarrow> rat list"
  embed_many_res :: "event \<Rightarrow> rat list list"
  to_bytes :: "rat list \<Rightarrow> nat list"
  load_res :: "event \<Rightarrow> string list"
  query_res :: "event \<Rightarrow> (pydict \<times> rat) list"

text \<open>
  \<open>env0\<close> is the process environment when the kernel starts, \<open>typed\<close> what the user
  types at a \<^verbatim>\<open>getpass\<close> prompt, \<open>fails\<close> whether a call raises.
  \<open>embed_res\<close> and \<open>embed_many_res\<close> are the vectors the embedding model of a call
  computes, \<open>to_bytes\<close> the bytes of a vector of floats, \<open>load_res\<close> the keys a load
  returns, and \<open>query_res\<close> the documents of the index that a query matches, each with
  its distance from the query vector, in no particular order.
\<close>

subsection \<open>The kernel state\<close>

record nb =
  environ :: "string \<Rightarrow> string option"
  trace :: "event list"
  stdout :: "cell_output list"
  status :: status
  api_key :: string
  api_version :: string
  azure_endpoint :: string
  deployment_name :: string
  oai :: client
  az_oai :: client
  hf :: client
  vtx :: client
  co :: client
  test :: embedding
  sentences :: "string list"
  embeddings :: "embedding list"
  index :: search_index
  data :: "pydict list"
  query_embedding :: embedding
  query :: vector_query
  results :: "pydict list"

text \<open>The namespace before the first cell. No cell reads a name before the cell that
  binds it, so the values given to the variables here are never read.\<close>

definition empty_schema :: schema where
  "empty_schema = \<lparr> version = [], index_spec = \<lparr> index_name = [], key_prefix = [],
     storage_type = [] \<rparr>, field_decls = [] \<rparr>"

definition init :: "world \<Rightarrow> nb" where
  "init w = \<lparr> environ = env0 w, trace = [], stdout = [], status = Running,
     api_key = [], api_version = [], azure_endpoint = [], deployment_name = [],
     oai = Client OpenAI None [], az_oai = Client AzureOpenAI None [],
     hf = Client HuggingFace None [], vtx = Client VertexAI None [],
     co = Client Cohere None [], test = Floats [], sentences = [], embeddings = [],
     index = SearchIndex empty_schema, data = [], query_embedding = Floats [],
     query = VectorQuery (Floats []) [] [] 0, results = [] \<rparr>"

subsection \<open>Primitive statements\<close>

definition log :: "event \<Rightarrow> nb \<Rightarrow> nb" where
  "log ev s = s\<lparr>trace := trace s @ [ev]\<rparr>"

definition raise :: "exn \<Rightarrow> nb \<Rightarrow> nb" where
  "raise x s = s\<lparr>status := Raised x\<rparr>"

definition out :: "cell_output \<Rightarrow> nb \<Rightarrow> nb" where
  "out x s = s\<lparr>stdout := stdout s @ [x]\<rparr>"

text \<open>A call that may raise: the call is made; if it raises, the statement ends there,
  otherwise the rest of the statement \<open>k\<close> goes on.\<close>

definition call :: "world \<Rightarrow> event \<Rightarrow> (nb \<Rightarrow> nb) \<Rightarrow> nb \<Rightarrow> nb" where
  "call w ev k s =
     (case fails w ev of
        Some x \<Rightarrow> raise x (log ev s)
      | None \<Rightarrow> k (log ev s))"

text \<open>\<^verbatim>\<open>os.environ.get(name) or getpass.getpass(prompt)\<close>: the prompt is shown when the
  variable is absent and also when it is set to the empty string, which is falsy.\<close>

definition env_or_getpass :: "world \<Rightarrow> string \<Rightarrow> string \<Rightarrow> (string \<Rightarrow> nb \<Rightarrow> nb) \<Rightarrow> nb \<Rightarrow> nb" where
  "env_or_getpass w var prompt k s =
     (let s1 = log (EnvGet var None) s in
      case environ s1 var of
        Some v \<Rightarrow> if v \<noteq> [] then k v s1
                  else call w (Getpass prompt) (k (typed w prompt)) s1
      | None \<Rightarrow> call w (Getpass prompt) (k (typed w prompt)) s1)"

text \<open>\<^verbatim>\<open>os.environ.get(name, default)\<close>.\<close>

definition env_get_default :: "string \<Rightarrow> string \<Rightarrow> (string \<Rightarrow> nb \<Rightarrow> nb) \<Rightarrow> nb \<Rightarrow> nb" where
  "env_get_default var dflt k s =
     (let s1 = log (EnvGet var (Some dflt)) s in
      case environ s1 var of
        Some v \<Rightarrow> k v s1
      | None \<Rightarrow> k dflt s1)"

text \<open>\<^verbatim>\<open>os.environ[name] = value\<close>.\<close>

definition env_set :: "string \<Rightarrow> string \<Rightarrow> nb \<Rightarrow> nb" where
  "env_set var v s = (log (EnvSet var v) s)\<lparr>environ := (environ s)(var \<mapsto> v)\<rparr>"

text \<open>\<^verbatim>\<open>embeddings[0][:10]\<close> as the last expression of a cell: the value is displayed;
  indexing an empty list raises.\<close>

definition display_first :: "nb \<Rightarrow> nb" where
  "display_first s =
     (case embeddings s of
        [] \<Rightarrow> raise IndexError s
      | e # _ \<Rightarrow> out (Display (E (slice10 e))) s)"

text \<open>\<^verbatim>\<open>for doc in results: print(doc["text"], doc["vector_distance"])\<close>.\<close>

fun print_docs :: "pydict list \<Rightarrow> nb \<Rightarrow> nb" where
  "print_docs [] s = s"
| "print_docs (d # ds) s =
     (case map_of d ''text'' of
        None \<Rightarrow> raise (KeyError ''text'') s
      | Some t \<Rightarrow>
          (case map_of d ''vector_distance'' of
             None \<Rightarrow> raise (KeyError ''vector_distance'') s
           | Some v \<Rightarrow> print_docs ds (out (Print [t, v]) s)))"

text \<open>\<^verbatim>\<open>[{"text": t, "embedding": v} for t, v in zip(sentences, embeddings)]\<close>.\<close>

definition make_records :: "string list \<Rightarrow> embedding list \<Rightarrow> pydict list" where
  "make_records ts vs = map (\<lambda>(t, v). [(''text'', S t), (''embedding'', E v)]) (zip ts vs)"

subsection \<open>The library, as far as the claims need it\<close>

text \<open>
  Modelled from the spec: what \<^verbatim>\<open>embed\<close> and \<^verbatim>\<open>embed_many\<close> of a vectorizer return for
  a vector the embedding model computed. The vectorizer classes are not under src/. The
  specification says that "each vector is a fixed-length sequence of floating-point numbers"
  and that vectors are "serialized as byte buffers for hash storage"; the notebook asks for
  the latter with \<^verbatim>\<open>as_buffer=True\<close> ("load expects an iterable of dictionaries where the
  vector is stored as a bytes buffer").
\<close>

definition returned :: "world \<Rightarrow> bool option \<Rightarrow> rat list \<Rightarrow> embedding" where
  "returned w as_buffer v = (if as_buffer = Some True then Buffer (to_bytes w v) else Floats v)"

text \<open>
  Modelled from the spec: what \<^verbatim>\<open>index.query\<close> returns for a \<^verbatim>\<open>VectorQuery\<close>.
  \<^verbatim>\<open>SearchIndex\<close> and \<^verbatim>\<open>VectorQuery\<close> are not under src/. The specification speaks of
  the "vector-distance ordering from a nearest-neighbor query" on an index "queried for
  nearest neighbors by distance metric": of the documents that match, the
  \<^verbatim>\<open>num_results\<close> nearest are returned, in the order of their distance, each with its
  distance under the key \<^verbatim>\<open>vector_distance\<close>.
\<close>

definition nearest :: "nat \<Rightarrow> (pydict \<times> rat) list \<Rightarrow> pydict list" where
  "nearest n ds = map (\<lambda>(d, r). (''vector_distance'', N r) # d) (take n (sort_key snd ds))"

text \<open>
  The schema file. \<^verbatim>\<open>./schema.yaml\<close> is not under src/; the notebook shows its content
  in the markdown cell before the cell that reads it ("Here's what the schema for the
  example looks like in yaml for the HuggingFace vectorizer"), and \<open>schema_yaml\<close> is that
  content. No other file is read.
\<close>

definition schema_yaml :: schema where
  "schema_yaml = \<lparr> version = ''0.1.0'',
     index_spec = \<lparr> index_name = ''vectorizers'', key_prefix = ''doc'',
                    storage_type = ''hash'' \<rparr>,
     field_decls = [\<lparr> name = ''sentence'', type = ''text'', attrs = None \<rparr>,
               \<lparr> name = ''embedding'', type = ''vector'',
                 attrs = Some \<lparr> dims = 768, algorithm = ''flat'',
                                distance_metric = ''cosine'' \<rparr> \<rparr>] \<rparr>"

definition schema_file :: "string \<Rightarrow> schema option" where
  "schema_file path = (if path = ''./schema.yaml'' then Some schema_yaml else None)"

text \<open>\<^verbatim>\<open>index = SearchIndex.from_yaml(path)\<close>: the index of the schema the file holds.\<close>

definition from_yaml :: "world \<Rightarrow> string \<Rightarrow> nb \<Rightarrow> nb" where
  "from_yaml w path s =
     call w (FromYaml path)
       (\<lambda>s. case schema_file path of
              None \<Rightarrow> raise (Failure ''FileNotFoundError'') s
            | Some sch \<Rightarrow> s\<lparr>index := SearchIndex sch\<rparr>) s"

subsection \<open>Running statements\<close>

definition step :: "(nb \<Rightarrow> nb) \<Rightarrow> nb \<Rightarrow> nb" where
  "step f s = (if status s = Running then f s else s)"

definition run :: "(nb \<Rightarrow> nb) list \<Rightarrow> nb \<Rightarrow> nb" where
  "run fs s = fold step fs s"

subsection \<open>The cells\<close>

definition test_sentence :: string where
  "test_sentence = ''This is a test sentence.''"

definition three_sentences :: "string list" where
  "three_sentences = [''That is a happy dog'', ''That is a happy person'', ''Today is a sunny day'']"

definition print_dims :: "nb \<Rightarrow> nb" where
  "print_dims s = out (Print [S ''Vector dimensions: '', N (of_nat (len (test s)))]) s"

definition display_test :: "nb \<Rightarrow> nb" where
  "display_test s = out (Display (E (slice10 (test s)))) s"

definition cell1 :: "world \<Rightarrow> (nb \<Rightarrow> nb) list" where
  "cell1 w = [call w (Import ''os'') id]"

definition cell4 :: "world \<Rightarrow> (nb \<Rightarrow> nb) list" where
  "cell4 w =
    [call w (Import ''getpass'') id,
     env_or_getpass w ''OPENAI_API_KEY'' ''Enter your OpenAI API key: ''
       (\<lambda>v s. s\<lparr>api_key := v\<rparr>)]"

definition cell5 :: "world \<Rightarrow> (nb \<Rightarrow> nb) list" where
  "cell5 w =
    [call w (Import ''redisvl.utils.vectorize.OpenAITextVectorizer'') id,
     (\<lambda>s. let c = Client OpenAI (Some ''text-embedding-ada-002'') [(''api_key'', api_key s)]
          in call w (Construct c) (\<lambda>s. s\<lparr>oai := c\<rparr>) s),
     (\<lambda>s. let ev = CallEmbed (oai s) test_sentence None None
          in call w ev (\<lambda>s. s\<lparr>test := returned w None (embed_res w ev)\<rparr>) s),
     print_dims,
     display_test]"

definition cell6 :: "world \<Rightarrow> (nb \<Rightarrow> nb) list" where
  "cell6 w =
    [(\<lambda>s. s\<lparr>sentences := three_sentences\<rparr>),
     (\<lambda>s. let ev = CallEmbedMany (oai s) (sentences s) None
          in call w ev (\<lambda>s. s\<lparr>embeddings := map (returned w None) (embed_many_res w ev)\<rparr>) s),
     display_first]"

definition cell7 :: "world \<Rightarrow> (nb \<Rightarrow> nb) list" where
  "cell7 w =
    [(\<lambda>s. let ev = CallAEmbedMany (oai s) (sentences s)
          in call w ev (\<lambda>s. s\<lparr>embeddings := map (returned w None) (embed_many_res w ev)\<rparr>) s),
     (\<lambda>s. out (Print [S ''Number of Embeddings:'', N (of_nat (length (embeddings s)))]) s)]"

definition cell9 :: "world \<Rightarrow> (nb \<Rightarrow> nb) list" where
  "cell9 w =
    [env_or_getpass w ''AZURE_OPENAI_API_KEY'' ''Enter your AzureOpenAI API key: ''
       (\<lambda>v s. s\<lparr>api_key := v\<rparr>),
     env_or_getpass w ''OPENAI_API_VERSION'' ''Enter your AzureOpenAI API version: ''
       (\<lambda>v s. s\<lparr>api_version := v\<rparr>),
     env_or_getpass w ''AZURE_OPENAI_ENDPOINT'' ''Enter your AzureOpenAI API endpoint: ''
       (\<lambda>v s. s\<lparr>azure_endpoint := v\<rparr>),
     env_get_default ''AZURE_OPENAI_DEPLOYMENT_NAME'' ''text-embedding-ada-002''
       (\<lambda>v s. s\<lparr>deployment_name := v\<rparr>)]"

definition cell10 :: "world \<Rightarrow> (nb \<Rightarrow> nb) list" where
  "cell10 w =
    [call w (Import ''redisvl.utils.vectorize.AzureOpenAITextVectorizer'') id,
     (\<lambda>s. let c = Client AzureOpenAI (Some (deployment_name s))
                     [(''api_key'', api_key s), (''api_version'', api_version s),
                      (''azure_endpoint'', azure_endpoint s)]
          in call w (Construct c) (\<lambda>s. s\<lparr>az_oai := c\<rparr>) s),
     (\<lambda>s. let ev = CallEmbed (az_oai s) test_sentence None None
          in call w ev (\<lambda>s. s\<lparr>test := returned w None (embed_res w ev)\<rparr>) s),
     print_dims,
     display_test]"

definition cell11 :: "world \<Rightarrow> (nb \<Rightarrow> nb) list" where
  "cell11 w =
    [(\<lambda>s. s\<lparr>sentences := three_sentences\<rparr>),
     (\<lambda>s. let ev = CallAEmbedMany (az_oai s) (sentences s)
          in call w ev (\<lambda>s. s\<lparr>embeddings := map (returned w None) (embed_many_res w ev)\<rparr>) s),
     display_first]"

definition cell13 :: "world \<Rightarrow> (nb \<Rightarrow> nb) list" where
  "cell13 w =
    [env_set ''TOKENIZERS_PARALLELISM'' ''false'',
     call w (Import ''redisvl.utils.vectorize.HFTextVectorizer'') id,
     (\<lambda>s. let c = Client HuggingFace (Some ''sentence-transformers/all-mpnet-base-v2'') []
          in call w (Construct c) (\<lambda>s. s\<lparr>hf := c\<rparr>) s),
     (\<lambda>s. let ev = CallEmbed (hf s) test_sentence None None
          in call w ev (\<lambda>s. s\<lparr>test := returned w None (embed_res w ev)\<rparr>) s),
     display_test]"

definition cell14 :: "world \<Rightarrow> (nb \<Rightarrow> nb) list" where
  "cell14 w =
    [(\<lambda>s. let ev = CallEmbedMany (hf s) (sentences s) (Some True)
          in call w ev (\<lambda>s. s\<lparr>embeddings := map (returned w (Some True)) (embed_many_res w ev)\<rparr>) s)]"

definition cell16 :: "world \<Rightarrow> (nb \<Rightarrow> nb) list" where
  "cell16 w =
    [call w (Import ''redisvl.utils.vectorize.VertexAITextVectorizer'') id,
     env_or_getpass w ''GCP_PROJECT_ID'' ''Enter your GCP Project ID: '' (\<lambda>p.
       env_or_getpass w ''GCP_LOCATION'' ''Enter your GCP Location: '' (\<lambda>l.
         env_or_getpass w ''GOOGLE_APPLICATION_CREDENTIALS''
             ''Enter your Google App Credentials path: '' (\<lambda>g.
           let c = Client VertexAI None
                     [(''project_id'', p), (''location'', l),
                      (''google_application_credentials'', g)]
           in call w (Construct c) (\<lambda>s. s\<lparr>vtx := c\<rparr>)))),
     (\<lambda>s. let ev = CallEmbed (vtx s) test_sentence None None
          in call w ev (\<lambda>s. s\<lparr>test := returned w None (embed_res w ev)\<rparr>) s),
     display_test]"

definition cell18 :: "world \<Rightarrow> (nb \<Rightarrow> nb) list" where
  "cell18 w =
    [call w (Import ''getpass'') id,
     env_or_getpass w ''COHERE_API_KEY'' ''Enter your Cohere API key: ''
       (\<lambda>v s. s\<lparr>api_key := v\<rparr>)]"

text \<open>\<^verbatim>\<open>print(test[:10])\<close>.\<close>

definition print_test :: "nb \<Rightarrow> nb" where
  "print_test s = out (Print [E (slice10 (test s))]) s"

definition cell20 :: "world \<Rightarrow> (nb \<Rightarrow> nb) list" where
  "cell20 w =
    [call w (Import ''redisvl.utils.vectorize.CohereTextVectorizer'') id,
     (\<lambda>s. let c = Client Cohere (Some ''embed-english-v3.0'') [(''api_key'', api_key s)]
          in call w (Construct c) (\<lambda>s. s\<lparr>co := c\<rparr>) s),
     (\<lambda>s. let ev = CallEmbed (co s) test_sentence (Some ''search_query'') None
          in call w ev (\<lambda>s. s\<lparr>test := returned w None (embed_res w ev)\<rparr>) s),
     print_dims,
     print_test,
     (\<lambda>s. let ev = CallEmbed (co s) test_sentence (Some ''search_document'') None
          in call w ev (\<lambda>s. s\<lparr>test := returned w None (embed_res w ev)\<rparr>) s),
     print_dims,
     print_test]"

definition cell23 :: "world \<Rightarrow> (nb \<Rightarrow> nb) list" where
  "cell23 w =
    [call w (Import ''redisvl.index.SearchIndex'') id,
     from_yaml w ''./schema.yaml'',
     (\<lambda>s. call w (Connect (index s) ''redis://localhost:6379'') id s),
     (\<lambda>s. call w (Create (index s) True) id s)]"

definition cell24 :: "world \<Rightarrow> (nb \<Rightarrow> nb) list" where
  "cell24 w = [log (Shell ''rvl index listall'')]"

definition cell25 :: "world \<Rightarrow> (nb \<Rightarrow> nb) list" where
  "cell25 w =
    [(\<lambda>s. s\<lparr>data := make_records (sentences s) (embeddings s)\<rparr>),
     (\<lambda>s. let ev = Load (index s) (data s)
          in call w ev (out (Display (L (map S (load_res w ev))))) s)]"

definition cell26 :: "world \<Rightarrow> (nb \<Rightarrow> nb) list" where
  "cell26 w =
    [call w (Import ''redisvl.query.VectorQuery'') id,
     (\<lambda>s. let ev = CallEmbed (hf s) ''That is a happy cat'' None None
          in call w ev (\<lambda>s. s\<lparr>query_embedding := returned w None (embed_res w ev)\<rparr>) s),
     (\<lambda>s. let q = VectorQuery (query_embedding s) ''embedding'' [''text''] 3
          in call w (NewQuery q) (\<lambda>s. s\<lparr>query := q\<rparr>) s),
     (\<lambda>s. let ev = RunQuery (index s) (query s)
          in call w ev (\<lambda>s. s\<lparr>results := nearest (num_results (query s)) (query_res w ev)\<rparr>) s),
     (\<lambda>s. print_docs (results s) s)]"

definition cell27 :: "world \<Rightarrow> (nb \<Rightarrow> nb) list" where
  "cell27 w = [(\<lambda>s. call w (Delete (index s)) id s)]"

definition program :: "world \<Rightarrow> (nb \<Rightarrow> nb) list" where
  "program w = cell1 w @ cell4 w @ cell5 w @ cell6 w @ cell7 w @ cell9 w @ cell10 w
     @ cell11 w @ cell13 w @ cell14 w @ cell16 w @ cell18 w @ cell20 w @ cell23 w
     @ cell24 w @ cell25 w @ cell26 w @ cell27 w"

definition notebook :: "world \<Rightarrow> nb" where
  "notebook w = run (program w) (init w)"

subsection \<open>A world in which no variable is set and no call raises\<close>

text \<open>Every prompt is answered with the same word, every embedding model returns short
  vectors, and every query matches four documents, which the index holds in no particular
  order.\<close>

definition bare_world :: world where
  "bare_world = \<lparr> env0 = (\<lambda>_. None), typed = (\<lambda>p. ''secret''), fails = (\<lambda>_. None),
     embed_res = (\<lambda>_. [1, 2]),
     embed_many_res = (\<lambda>_. [[1], [2], [3]]),
     to_bytes = map (\<lambda>x. nat \<lfloor>x\<rfloor>),
     load_res = (\<lambda>_. [''doc:a'', ''doc:b'', ''doc:c'']),
     query_res = (\<lambda>_. [([(''text'', S ''That is a happy dog'')], 3 / 10),
                       ([(''text'', S ''Today is a sunny day'')], 7 / 10),
                       ([(''text'', S ''That is a happy person'')], 1 / 5),
                       ([(''text'', S ''That is a sad day'')], 9 / 10)]) \<rparr>"

section \<open>Notions used to state and prove the claims\<close>

text \<open>
  The definitions below are not part of the notebook. They describe traces (which events
  come before which, and what the events carry) and set up the proofs: \<open>erase\<close> forgets
  the run-dependent arguments of an event, \<open>outline\<close> is the list of erased events a
  complete run logs, \<open>exact\<close> says what an event of a run carries, and \<open>eff\<close>,
  \<open>xeff\<close>, \<open>good\<close> and \<open>sound\<close> are the invariants of a run.
\<close>

text \<open>  Two runs of the notebook differ in the credentials, the embeddings and the records their
  events carry, never in which calls are made. \<open>erase\<close> keeps of an event what the text
  of the notebook fixes (the kind of call, the class of the vectorizer, the literal
  arguments) and forgets what a run decides.\<close>

fun erase :: "event \<Rightarrow> event" where
  "erase (Construct c) = Construct (Client (cls c) None [])"
| "erase (CallEmbed c t it ab) = CallEmbed (Client (cls c) None []) t it ab"
| "erase (CallEmbedMany c ts ab) = CallEmbedMany (Client (cls c) None []) [] ab"
| "erase (CallAEmbedMany c ts) = CallAEmbedMany (Client (cls c) None []) []"
| "erase (Connect i u) = Connect (SearchIndex empty_schema) u"
| "erase (Create i b) = Create (SearchIndex empty_schema) b"
| "erase (Load i d) = Load (SearchIndex empty_schema) []"
| "erase (NewQuery q) = NewQuery (VectorQuery (Floats []) (vector_field_name q) (return_fields q) (num_results q))"
| "erase (RunQuery i q) = RunQuery (SearchIndex empty_schema) (VectorQuery (Floats []) [] [] 0)"
| "erase (Delete i) = Delete (SearchIndex empty_schema)"
| "erase ev = ev"

text \<open>  A variable needs its prompt when it is absent or empty. \<open>cred w n p\<close> is what
  \<^verbatim>\<open>os.environ.get(n) or getpass.getpass(p)\<close> logs in the world \<open>w\<close>.\<close>

definition needs_prompt :: "world \<Rightarrow> string \<Rightarrow> bool" where
  "needs_prompt w n \<longleftrightarrow> env0 w n = None \<or> env0 w n = Some []"

definition cred :: "world \<Rightarrow> string \<Rightarrow> string \<Rightarrow> event list" where
  "cred w n p = EnvGet n None # (if needs_prompt w n then [Getpass p] else [])"

text \<open>  An invariant of the kernel state: each vectorizer variable holds a vectorizer of its own
  class (the constructor calls bind them so, and so does \<open>init\<close>), and the environment is
  the one the kernel started with, but for the one variable the notebook sets.\<close>

definition good :: "world \<Rightarrow> nb \<Rightarrow> bool" where
  "good w s \<longleftrightarrow> cls (oai s) = OpenAI \<and> cls (az_oai s) = AzureOpenAI \<and> cls (hf s) = HuggingFace
     \<and> cls (vtx s) = VertexAI \<and> cls (co s) = Cohere
     \<and> (\<forall>n. n \<noteq> ''TOKENIZERS_PARALLELISM'' \<longrightarrow> environ s n = env0 w n)"

text \<open>  \<open>eff w s s' seg\<close>: from \<open>s\<close> to \<open>s'\<close> the trace only grew, the erased new events are an
  initial part of \<open>seg\<close>, and all of \<open>seg\<close> when \<open>s'\<close> is still running. A statement is
  \<open>stmt_ok\<close> for a segment when it has this effect from every good state.\<close>

definition fresh :: "nb \<Rightarrow> nb \<Rightarrow> event list" where
  "fresh s s' = map erase (drop (length (trace s)) (trace s'))"

definition eff :: "world \<Rightarrow> nb \<Rightarrow> nb \<Rightarrow> event list \<Rightarrow> bool" where
  "eff w s s' seg \<longleftrightarrow> good w s' \<and> prefix (trace s) (trace s') \<and> prefix (fresh s s') seg \<and>
     (status s' = Running \<longrightarrow> fresh s s' = seg)"

definition stmt_ok :: "world \<Rightarrow> (nb \<Rightarrow> nb) \<Rightarrow> event list \<Rightarrow> bool" where
  "stmt_ok w f seg \<longleftrightarrow> (\<forall>s. good w s \<longrightarrow> eff w s (f s) seg)"

text \<open>  The outline of the notebook: for every statement of every cell, in order, the erased
  events it logs when nothing raises.\<close>

definition oai0 :: client where "oai0 = Client OpenAI None []"

definition az0 :: client where "az0 = Client AzureOpenAI None []"

definition hf0 :: client where "hf0 = Client HuggingFace None []"

definition vtx0 :: client where "vtx0 = Client VertexAI None []"

definition co0 :: client where "co0 = Client Cohere None []"

definition idx0 :: search_index where "idx0 = SearchIndex empty_schema"

definition yaml_index :: search_index where
  "yaml_index = SearchIndex schema_yaml"

definition segs1 :: "world \<Rightarrow> event list list" where
  "segs1 w = [[Import ''os'']]"

definition segs4 :: "world \<Rightarrow> event list list" where
  "segs4 w = [[Import ''getpass''], cred w ''OPENAI_API_KEY'' ''Enter your OpenAI API key: '']"

definition segs5 :: "world \<Rightarrow> event list list" where
  "segs5 w = [[Import ''redisvl.utils.vectorize.OpenAITextVectorizer''],
     [Construct oai0], [CallEmbed oai0 test_sentence None None], [], []]"

definition segs6 :: "world \<Rightarrow> event list list" where
  "segs6 w = [[], [CallEmbedMany oai0 [] None], []]"

definition segs7 :: "world \<Rightarrow> event list list" where
  "segs7 w = [[CallAEmbedMany oai0 []], []]"

definition segs9 :: "world \<Rightarrow> event list list" where
  "segs9 w = [cred w ''AZURE_OPENAI_API_KEY'' ''Enter your AzureOpenAI API key: '',
     cred w ''OPENAI_API_VERSION'' ''Enter your AzureOpenAI API version: '',
     cred w ''AZURE_OPENAI_ENDPOINT'' ''Enter your AzureOpenAI API endpoint: '',
     [EnvGet ''AZURE_OPENAI_DEPLOYMENT_NAME'' (Some ''text-embedding-ada-002'')]]"

definition segs10 :: "world \<Rightarrow> event list list" where
  "segs10 w = [[Import ''redisvl.utils.vectorize.AzureOpenAITextVectorizer''],
     [Construct az0], [CallEmbed az0 test_sentence None None], [], []]"

definition segs11 :: "world \<Rightarrow> event list list" where
  "segs11 w = [[], [CallAEmbedMany az0 []], []]"

definition segs13 :: "world \<Rightarrow> event list list" where
  "segs13 w = [[EnvSet ''TOKENIZERS_PARALLELISM'' ''false''],
     [Import ''redisvl.utils.vectorize.HFTextVectorizer''],
     [Construct hf0], [CallEmbed hf0 test_sentence None None], []]"

definition segs14 :: "world \<Rightarrow> event list list" where
  "segs14 w = [[CallEmbedMany hf0 [] (Some True)]]"

definition segs16 :: "world \<Rightarrow> event list list" where
  "segs16 w = [[Import ''redisvl.utils.vectorize.VertexAITextVectorizer''],
     cred w ''GCP_PROJECT_ID'' ''Enter your GCP Project ID: ''
     @ cred w ''GCP_LOCATION'' ''Enter your GCP Location: ''
     @ cred w ''GOOGLE_APPLICATION_CREDENTIALS'' ''Enter your Google App Credentials path: ''
     @ [Construct vtx0],
     [CallEmbed vtx0 test_sentence None None], []]"

definition segs18 :: "world \<Rightarrow> event list list" where
  "segs18 w = [[Import ''getpass''], cred w ''COHERE_API_KEY'' ''Enter your Cohere API key: '']"

definition segs20 :: "world \<Rightarrow> event list list" where
  "segs20 w = [[Import ''redisvl.utils.vectorize.CohereTextVectorizer''],
     [Construct co0],
     [CallEmbed co0 test_sentence (Some ''search_query'') None], [], [],
     [CallEmbed co0 test_sentence (Some ''search_document'') None], [], []]"

definition segs23 :: "world \<Rightarrow> event list list" where
  "segs23 w = [[Import ''redisvl.index.SearchIndex''], [FromYaml ''./schema.yaml''],
     [Connect idx0 ''redis://localhost:6379''], [Create idx0 True]]"

definition segs24 :: "world \<Rightarrow> event list list" where
  "segs24 w = [[Shell ''rvl index listall'']]"

definition segs25 :: "world \<Rightarrow> event list list" where
  "segs25 w = [[], [Load idx0 []]]"

definition segs26 :: "world \<Rightarrow> event list list" where
  "segs26 w = [[Import ''redisvl.query.VectorQuery''],
     [CallEmbed hf0 ''That is a happy cat'' None None],
     [NewQuery (VectorQuery (Floats []) ''embedding'' [''text''] 3)],
     [RunQuery idx0 (VectorQuery (Floats []) [] [] 0)], []]"

definition segs27 :: "world \<Rightarrow> event list list" where
  "segs27 w = [[Delete idx0]]"

definition segments :: "world \<Rightarrow> event list list" where
  "segments w = segs1 w @ segs4 w @ segs5 w @ segs6 w @ segs7 w @ segs9 w @ segs10 w
     @ segs11 w @ segs13 w @ segs14 w @ segs16 w @ segs18 w @ segs20 w @ segs23 w
     @ segs24 w @ segs25 w @ segs26 w @ segs27 w"

definition outline :: "world \<Rightarrow> event list" where
  "outline w = concat (segments w)"

text \<open>  Order in a trace. \<open>no_later P Q tr\<close>: no event satisfying \<open>P\<close> comes later than an event
  satisfying \<open>Q\<close>, that is, every \<open>P\<close>-event comes before every \<open>Q\<close>-event.
  \<open>has_before P Q tr\<close>: every \<open>Q\<close>-event has a \<open>P\<close>-event before it.\<close>

fun no_later :: "('a \<Rightarrow> bool) \<Rightarrow> ('a \<Rightarrow> bool) \<Rightarrow> 'a list \<Rightarrow> bool" where
  "no_later P Q [] = True"
| "no_later P Q (x # xs) = ((Q x \<longrightarrow> \<not> list_ex P xs) \<and> no_later P Q xs)"

fun led :: "('a \<Rightarrow> bool) \<Rightarrow> ('a \<Rightarrow> bool) \<Rightarrow> bool \<Rightarrow> 'a list \<Rightarrow> bool" where
  "led P Q seen [] = True"
| "led P Q seen (x # xs) = ((Q x \<longrightarrow> seen) \<and> led P Q (seen \<or> P x) xs)"

definition has_before :: "('a \<Rightarrow> bool) \<Rightarrow> ('a \<Rightarrow> bool) \<Rightarrow> 'a list \<Rightarrow> bool" where
  "has_before P Q tr = led P Q False tr"

text \<open>  Kinds of events. \<open>receiver\<close> is the class of the vectorizer an embed call is made on.\<close>

fun receiver :: "event \<Rightarrow> provider option" where
  "receiver (CallEmbed c t it ab) = Some (cls c)"
| "receiver (CallEmbedMany c ts ab) = Some (cls c)"
| "receiver (CallAEmbedMany c ts) = Some (cls c)"
| "receiver ev = None"

definition embeds_on :: "provider \<Rightarrow> event \<Rightarrow> bool" where
  "embeds_on p ev \<longleftrightarrow> receiver ev = Some p"

definition is_embed :: "event \<Rightarrow> bool" where
  "is_embed ev \<longleftrightarrow> receiver ev \<noteq> None"

fun constructs :: "provider \<Rightarrow> event \<Rightarrow> bool" where
  "constructs p (Construct c) = (cls c = p)"
| "constructs p ev = False"

fun reads_var :: "string \<Rightarrow> event \<Rightarrow> bool" where
  "reads_var v (EnvGet n d) = (n = v)"
| "reads_var v ev = False"

fun is_getpass :: "event \<Rightarrow> bool" where
  "is_getpass (Getpass p) = True"
| "is_getpass ev = False"

text \<open>  The environment variables and the prompts whose values go into the
  \<^verbatim>\<open>api_config\<close> (or the \<^verbatim>\<open>model\<close>) of each provider's vectorizer.\<close>

fun cred_vars :: "provider \<Rightarrow> string list" where
  "cred_vars OpenAI = [''OPENAI_API_KEY'']"
| "cred_vars AzureOpenAI = [''AZURE_OPENAI_API_KEY'', ''OPENAI_API_VERSION'',
     ''AZURE_OPENAI_ENDPOINT'', ''AZURE_OPENAI_DEPLOYMENT_NAME'']"
| "cred_vars HuggingFace = []"
| "cred_vars VertexAI = [''GCP_PROJECT_ID'', ''GCP_LOCATION'', ''GOOGLE_APPLICATION_CREDENTIALS'']"
| "cred_vars Cohere = [''COHERE_API_KEY'']"

fun cred_prompts :: "provider \<Rightarrow> string list" where
  "cred_prompts OpenAI = [''Enter your OpenAI API key: '']"
| "cred_prompts AzureOpenAI = [''Enter your AzureOpenAI API key: '',
     ''Enter your AzureOpenAI API version: '', ''Enter your AzureOpenAI API endpoint: '']"
| "cred_prompts HuggingFace = []"
| "cred_prompts VertexAI = [''Enter your GCP Project ID: '', ''Enter your GCP Location: '',
     ''Enter your Google App Credentials path: '']"
| "cred_prompts Cohere = [''Enter your Cohere API key: '']"

fun obtains_cred :: "provider \<Rightarrow> event \<Rightarrow> bool" where
  "obtains_cred p (EnvGet n d) = (n \<in> set (cred_vars p))"
| "obtains_cred p (Getpass q) = (q \<in> set (cred_prompts p))"
| "obtains_cred p ev = False"

fun is_create :: "event \<Rightarrow> bool" where
  "is_create (Create i b) = True"
| "is_create ev = False"

fun is_load :: "event \<Rightarrow> bool" where
  "is_load (Load i d) = True"
| "is_load ev = False"

fun is_query :: "event \<Rightarrow> bool" where
  "is_query (RunQuery i q) = True"
| "is_query ev = False"

fun is_delete :: "event \<Rightarrow> bool" where
  "is_delete (Delete i) = True"
| "is_delete ev = False"

text \<open>  The index operations of the claim about control flow: create, load, query, delete.\<close>

definition is_index_op :: "event \<Rightarrow> bool" where
  "is_index_op ev \<longleftrightarrow> is_create ev \<or> is_load ev \<or> is_query ev \<or> is_delete ev"

text \<open>  The embed call of cell 26, whose result is the vector of the query.\<close>

fun is_query_embedding :: "event \<Rightarrow> bool" where
  "is_query_embedding (CallEmbed c t it ab) = (t = ''That is a happy cat'')"
| "is_query_embedding ev = False"

text \<open>  The parts of the flow: credentials before the client, the client before its embed calls,
  the index operations in their order with nothing after delete.\<close>

definition creds_first :: "event list \<Rightarrow> bool" where
  "creds_first tr \<longleftrightarrow> (\<forall>p. no_later (obtains_cred p) (constructs p) tr \<and>
      (\<forall>v\<in>set (cred_vars p). has_before (reads_var v) (constructs p) tr))"

definition client_first :: "event list \<Rightarrow> bool" where
  "client_first tr \<longleftrightarrow> (\<forall>p. no_later (constructs p) (embeds_on p) tr \<and>
      has_before (constructs p) (embeds_on p) tr)"

definition index_order :: "event list \<Rightarrow> bool" where
  "index_order tr \<longleftrightarrow>
     no_later is_create is_load tr \<and> no_later is_load is_query tr \<and>
     no_later is_query is_delete tr \<and>
     has_before is_create is_load tr \<and> has_before is_load is_query tr \<and>
     has_before is_query is_delete tr \<and>
     no_later (\<lambda>ev. True) is_delete tr"

text \<open>  The flow as the specification states it: every embed call before every index operation.\<close>

definition flow_as_stated :: "event list \<Rightarrow> bool" where
  "flow_as_stated tr \<longleftrightarrow> creds_first tr \<and> client_first tr \<and>
     no_later is_embed is_index_op tr \<and> index_order tr"

text \<open>  The flow the notebook has: every embed call before query and delete, and every embed call
  but the query embedding before every index operation.\<close>

definition flow_amended :: "event list \<Rightarrow> bool" where
  "flow_amended tr \<longleftrightarrow> creds_first tr \<and> client_first tr \<and>
     no_later (\<lambda>ev. is_embed ev \<and> \<not> is_query_embedding ev) is_index_op tr \<and>
     no_later is_embed (\<lambda>ev. is_query ev \<or> is_delete ev) tr \<and>
     index_order tr"

text \<open>  Calls that can raise. Looking up or setting an environment variable does not, and an
  IPython shell line does not raise when the command fails.\<close>

fun can_raise :: "event \<Rightarrow> bool" where
  "can_raise (EnvGet n d) = False"
| "can_raise (EnvSet n v) = False"
| "can_raise (Shell c) = False"
| "can_raise ev = True"

text \<open>  \<open>clean w tr\<close>: no call of \<open>tr\<close> raises in \<open>w\<close>. The exceptions of the notebook's own
  subscripts are the local errors.\<close>

definition clean :: "world \<Rightarrow> event list \<Rightarrow> bool" where
  "clean w tr \<longleftrightarrow> (\<forall>ev\<in>set tr. can_raise ev \<longrightarrow> fails w ev = None)"

fun local_error :: "exn \<Rightarrow> bool" where
  "local_error IndexError = True"
| "local_error (KeyError k) = True"
| "local_error (Failure m) = False"

text \<open>  An invariant of the run: while it is running no call has raised; once it has raised,
  either the exception is a local error and no call has raised, or the last call logged is
  the only one that raised and the exception is its own.\<close>

definition fail_inv :: "world \<Rightarrow> nb \<Rightarrow> bool" where
  "fail_inv w s \<longleftrightarrow>
     (status s = Running \<longrightarrow> clean w (trace s)) \<and>
     (\<forall>x. status s = Raised x \<longrightarrow>
        (local_error x \<and> clean w (trace s)) \<or>
        (trace s \<noteq> [] \<and> clean w (butlast (trace s)) \<and> can_raise (last (trace s)) \<and>
         fails w (last (trace s)) = Some x))"

text \<open>  Records with exactly the keys \<^verbatim>\<open>text\<close> and \<^verbatim>\<open>embedding\<close>.\<close>

definition keyed :: "pydict list \<Rightarrow> bool" where
  "keyed d \<longleftrightarrow> (\<forall>r\<in>set d. map fst r = [''text'', ''embedding''])"

fun load_keyed :: "event \<Rightarrow> bool" where
  "load_keyed (Load i d) = keyed d"
| "load_keyed ev = True"

definition keys_inv :: "nb \<Rightarrow> bool" where
  "keys_inv s \<longleftrightarrow> list_all load_keyed (trace s) \<and> keyed (data s)"

text \<open>  Once \<^verbatim>\<open>AZURE_OPENAI_DEPLOYMENT_NAME\<close> has been looked up, \<open>deployment_name\<close> is its
  value, or the default when it is absent.\<close>

definition deployment_default :: string where
  "deployment_default = ''text-embedding-ada-002''"

definition depl_inv :: "world \<Rightarrow> nb \<Rightarrow> bool" where
  "depl_inv w s \<longleftrightarrow> (list_ex (reads_var ''AZURE_OPENAI_DEPLOYMENT_NAME'') (trace s) \<longrightarrow>
     deployment_name s = (case env0 w ''AZURE_OPENAI_DEPLOYMENT_NAME'' of
                            None \<Rightarrow> deployment_default | Some v \<Rightarrow> v))"

text \<open>  The invariants together, and the statements that preserve them.\<close>

definition sound :: "world \<Rightarrow> nb \<Rightarrow> bool" where
  "sound w s \<longleftrightarrow> good w s \<and> fail_inv w s \<and> keys_inv s \<and> depl_inv w s"

definition pres :: "world \<Rightarrow> (nb \<Rightarrow> nb) \<Rightarrow> bool" where
  "pres w f \<longleftrightarrow> (\<forall>s. sound w s \<longrightarrow> status s = Running \<longrightarrow> sound w (f s))"

text \<open>  \<open>prompted v tr\<close>: somewhere in \<open>tr\<close> the lookup of the variable \<open>v\<close> is immediately
  followed by a \<^verbatim>\<open>getpass\<close> prompt.\<close>

fun prompt_next :: "event list \<Rightarrow> bool" where
  "prompt_next [] = False"
| "prompt_next (e # tr) = is_getpass e"

fun prompted :: "string \<Rightarrow> event list \<Rightarrow> bool" where
  "prompted v [] = False"
| "prompted v (e # tr) = ((reads_var v e \<and> prompt_next tr) \<or> prompted v tr)"

text \<open>  The variables the specification lists, and those among them read with the
  \<^verbatim>\<open>or getpass.getpass(...)\<close> fallback.\<close>

definition credential_vars :: "string list" where
  "credential_vars = [''OPENAI_API_KEY'', ''AZURE_OPENAI_API_KEY'', ''OPENAI_API_VERSION'',
     ''AZURE_OPENAI_ENDPOINT'', ''AZURE_OPENAI_DEPLOYMENT_NAME'', ''GCP_PROJECT_ID'',
     ''GCP_LOCATION'', ''GOOGLE_APPLICATION_CREDENTIALS'', ''COHERE_API_KEY'']"

definition prompting_vars :: "string list" where
  "prompting_vars = [''OPENAI_API_KEY'', ''AZURE_OPENAI_API_KEY'', ''OPENAI_API_VERSION'',
     ''AZURE_OPENAI_ENDPOINT'', ''GCP_PROJECT_ID'', ''GCP_LOCATION'',
     ''GOOGLE_APPLICATION_CREDENTIALS'', ''COHERE_API_KEY'']"


text \<open>  The providers a batch call is made on in a trace.\<close>

fun aembed_many_on :: "event \<Rightarrow> provider option" where
  "aembed_many_on (CallAEmbedMany c ts) = Some (cls c)"
| "aembed_many_on ev = None"

fun embed_many_on :: "event \<Rightarrow> provider option" where
  "embed_many_on (CallEmbedMany c ts ab) = Some (cls c)"
| "embed_many_on ev = None"

definition providers_of :: "(event \<Rightarrow> provider option) \<Rightarrow> event list \<Rightarrow> provider set" where
  "providers_of sel tr = set (List.map_filter sel tr)"

text \<open>  Building and listing indices: the path every \<^verbatim>\<open>from_yaml\<close> call is given, the command
  of every shell line, and the calls that use the index.\<close>

fun from_yaml_ok :: "event \<Rightarrow> bool" where
  "from_yaml_ok (FromYaml p) = (p = ''./schema.yaml'')"
| "from_yaml_ok ev = True"

fun listing_ok :: "event \<Rightarrow> bool" where
  "listing_ok (Shell c) = (c = ''rvl index listall'')"
| "listing_ok ev = True"

fun is_from_yaml :: "event \<Rightarrow> bool" where
  "is_from_yaml (FromYaml p) = True"
| "is_from_yaml ev = False"

fun is_listing :: "event \<Rightarrow> bool" where
  "is_listing (Shell c) = True"
| "is_listing ev = False"

fun uses_index :: "event \<Rightarrow> bool" where
  "uses_index (Connect i u) = True"
| "uses_index (Create i b) = True"
| "uses_index (Load i d) = True"
| "uses_index (RunQuery i q) = True"
| "uses_index (Delete i) = True"
| "uses_index ev = False"

text \<open>  The \<^verbatim>\<open>as_buffer\<close> argument of a call, when one is written. \<open>buffer_ok\<close>: an event that
  passes it is a HuggingFace \<^verbatim>\<open>embed_many\<close> call passing \<open>True\<close>.\<close>

fun as_buffer_arg :: "event \<Rightarrow> bool option" where
  "as_buffer_arg (CallEmbed c t it ab) = ab"
| "as_buffer_arg (CallEmbedMany c ts ab) = ab"
| "as_buffer_arg ev = None"

definition buffer_ok :: "event \<Rightarrow> bool" where
  "buffer_ok ev \<longleftrightarrow> as_buffer_arg ev = None \<or>
     (as_buffer_arg ev = Some True \<and> embed_many_on ev = Some HuggingFace)"

text \<open>  The literal arguments of the vector query of cell 26.\<close>

fun query_fields_ok :: "event \<Rightarrow> bool" where
  "query_fields_ok (NewQuery q) = (return_fields q = [''text''] \<and> vector_field_name q = ''embedding''
      \<and> num_results q = 3)"
| "query_fields_ok ev = True"

fun is_new_query :: "event \<Rightarrow> bool" where
  "is_new_query (NewQuery q) = True"
| "is_new_query ev = False"

text \<open>  What the events of a run carry. The HuggingFace vectorizer of cell 13, the batch call of
  cell 14 on it, the records cell 25 builds from the three sentences and the buffers that
  call returns, the embed call of cell 26 and the query built from its result.\<close>

definition hf_client :: client where
  "hf_client = Client HuggingFace (Some ''sentence-transformers/all-mpnet-base-v2'') []"

definition hf_batch_call :: event where
  "hf_batch_call = CallEmbedMany hf_client three_sentences (Some True)"

definition hf_buffers :: "world \<Rightarrow> embedding list" where
  "hf_buffers w = map (\<lambda>v. Buffer (to_bytes w v)) (embed_many_res w hf_batch_call)"

definition loaded_records :: "world \<Rightarrow> pydict list" where
  "loaded_records w =
     map (\<lambda>(t, v). [(''text'', S t), (''embedding'', E (Buffer (to_bytes w v)))])
       (zip three_sentences (embed_many_res w hf_batch_call))"

definition query_embedding_call :: event where
  "query_embedding_call = CallEmbed hf_client ''That is a happy cat'' None None"

definition notebook_query :: "world \<Rightarrow> vector_query" where
  "notebook_query w =
     VectorQuery (Floats (embed_res w query_embedding_call)) ''embedding'' [''text''] 3"

definition query_call :: "world \<Rightarrow> event" where
  "query_call w = RunQuery yaml_index (notebook_query w)"

text \<open>  The line the result loop prints for a document that has both keys.\<close>

definition doc_line :: "pydict \<Rightarrow> cell_output" where
  "doc_line d = Print [the (map_of d ''text''), the (map_of d ''vector_distance'')]"

text \<open>  \<open>exact w ev\<close>: the event carries what the notebook passes at that call in the world
  \<open>w\<close>. Batch calls are made on the three sentences; the HuggingFace calls on the
  vectorizer of cell 13; every index operation on the index \<^verbatim>\<open>from_yaml\<close> returned; the
  load with the records above; the query is the one above.\<close>

fun exact :: "world \<Rightarrow> event \<Rightarrow> bool" where
  "exact w (Construct c) = (cls c = HuggingFace \<longrightarrow> c = hf_client)"
| "exact w (CallEmbed c t it ab) = (cls c = HuggingFace \<longrightarrow> c = hf_client)"
| "exact w (CallEmbedMany c ts ab) = (ts = three_sentences \<and> (cls c = HuggingFace \<longrightarrow> c = hf_client))"
| "exact w (CallAEmbedMany c ts) = (ts = three_sentences)"
| "exact w (Connect i u) = (i = yaml_index)"
| "exact w (Create i b) = (i = yaml_index)"
| "exact w (Load i d) = (i = yaml_index \<and> d = loaded_records w)"
| "exact w (NewQuery q) = (q = notebook_query w)"
| "exact w (RunQuery i q) = (i = yaml_index \<and> q = notebook_query w)"
| "exact w (Delete i) = (i = yaml_index)"
| "exact w ev = True"

text \<open>  \<open>answered w tr\<close>: in \<open>tr\<close> every \<^verbatim>\<open>os.environ.get(name)\<close> without a default, of a
  variable that is absent or empty, is immediately followed by a prompt.\<close>

fun lookup :: "event \<Rightarrow> string option" where
  "lookup (EnvGet n None) = Some n"
| "lookup ev = None"

fun answered :: "world \<Rightarrow> event list \<Rightarrow> bool" where
  "answered w [] = True"
| "answered w (ev # tr) =
     ((case lookup ev of Some n \<Rightarrow> needs_prompt w n \<longrightarrow> prompt_next tr | None \<Rightarrow> True)
      \<and> answered w tr)"

definition fine :: "world \<Rightarrow> event list \<Rightarrow> bool" where
  "fine w es \<longleftrightarrow> list_all (exact w) es \<and> answered w es"

text \<open>  What is known of the variables while the run goes on, by stages: the sentences from cell
  6 on, the HuggingFace vectorizer from cell 13, the buffers from cell 14, the index from
  cell 23, the records from cell 25, the query embedding, the query and the results in
  cell 26, and what the result loop has printed after it.\<close>

definition know :: "world \<Rightarrow> nat \<Rightarrow> nb \<Rightarrow> bool" where
  "know w n s \<longleftrightarrow>
     (1 \<le> n \<longrightarrow> sentences s = three_sentences) \<and>
     (2 \<le> n \<longrightarrow> hf s = hf_client) \<and>
     (3 \<le> n \<longrightarrow> embeddings s = hf_buffers w) \<and>
     (4 \<le> n \<longrightarrow> index s = yaml_index) \<and>
     (5 \<le> n \<longrightarrow> data s = loaded_records w) \<and>
     (6 \<le> n \<longrightarrow> query_embedding s = Floats (embed_res w query_embedding_call)) \<and>
     (7 \<le> n \<longrightarrow> query s = notebook_query w) \<and>
     (8 \<le> n \<longrightarrow> results s = nearest 3 (query_res w (query_call w))) \<and>
     (9 \<le> n \<longrightarrow> (\<exists>pre. stdout s = pre @ map doc_line (results s)) \<and>
                 (\<forall>d\<in>set (results s). map_of d ''text'' \<noteq> None))"

text \<open>  \<open>xeff w m s s' seg\<close> refines \<open>eff\<close>: the events added from \<open>s\<close> to \<open>s'\<close> are exact
  and answered, and \<open>s'\<close>, when still running, is at stage \<open>m\<close>. A \<open>chain\<close> is a list
  of statements, each starting at the stage the one before it reached.\<close>

definition added :: "nb \<Rightarrow> nb \<Rightarrow> event list" where
  "added s s' = drop (length (trace s)) (trace s')"

definition xeff :: "world \<Rightarrow> nat \<Rightarrow> nb \<Rightarrow> nb \<Rightarrow> event list \<Rightarrow> bool" where
  "xeff w m s s' seg \<longleftrightarrow> eff w s s' seg \<and> fine w (added s s') \<and>
     (status s' = Running \<longrightarrow> know w m s')"

definition xstmt :: "world \<Rightarrow> nat \<Rightarrow> (nb \<Rightarrow> nb) \<Rightarrow> nat \<Rightarrow> event list \<Rightarrow> bool" where
  "xstmt w n f m seg \<longleftrightarrow>
     (\<forall>s. good w s \<longrightarrow> status s = Running \<longrightarrow> know w n s \<longrightarrow> xeff w m s (f s) seg)"

fun chain :: "world \<Rightarrow> nat \<Rightarrow> (nb \<Rightarrow> nb) list \<Rightarrow> nat list \<Rightarrow> event list list \<Rightarrow> bool" where
  "chain w n [] [] [] = True"
| "chain w n (f # fs) (m # ms) (seg # segs) = (xstmt w n f m seg \<and> chain w m fs ms segs)"
| "chain w n fs ms segs = False"

text \<open>  The stage reached after each statement of the notebook.\<close>

definition levels :: "nat list" where
  "levels = [0] @ [0, 0] @ [0, 0, 0, 0, 0] @ [1, 1, 1] @ [1, 1] @ [1, 1, 1, 1]
     @ [1, 1, 1, 1, 1] @ [1, 1, 1] @ [1, 1, 2, 2, 2] @ [3] @ [3, 3, 3, 3]
     @ [3, 3] @ [3, 3, 3, 3, 3, 3, 3, 3] @ [3, 4, 4, 4] @ [4] @ [5, 5]
     @ [5, 6, 7, 8, 9] @ [9]"

text \<open>  The HuggingFace batch calls made with \<^verbatim>\<open>as_buffer=True\<close>, and the index an event
  operates on.\<close>

fun hf_batch :: "event \<Rightarrow> bool" where
  "hf_batch (CallEmbedMany c ts ab) = (cls c = HuggingFace \<and> ab = Some True)"
| "hf_batch ev = False"

fun index_of :: "event \<Rightarrow> search_index option" where
  "index_of (Connect i u) = Some i"
| "index_of (Create i b) = Some i"
| "index_of (Load i d) = Some i"
| "index_of (RunQuery i q) = Some i"
| "index_of (Delete i) = Some i"
| "index_of ev = None"

section \<open>Lemmas\<close>

text \<open>  The primitive statements and the invariant \<open>good\<close>.\<close>

lemma good_log [simp]: "good w (log ev s) = good w s"
  by (simp add: good_def log_def)

lemma good_raise [simp]: "good w (raise x s) = good w s"
  by (simp add: good_def raise_def)

lemma good_out [simp]: "good w (out x s) = good w s"
  by (simp add: good_def out_def)

lemma trace_log [simp]: "trace (log ev s) = trace s @ [ev]"
  by (simp add: log_def)

lemma trace_raise [simp]: "trace (raise x s) = trace s"
  by (simp add: raise_def)

lemma trace_out [simp]: "trace (out x s) = trace s"
  by (simp add: out_def)

lemma status_raise [simp]: "status (raise x s) = Raised x"
  by (simp add: raise_def)

lemma status_log [simp]: "status (log ev s) = status s"
  by (simp add: log_def)

lemma status_out [simp]: "status (out x s) = status s"
  by (simp add: out_def)

lemma environ_log [simp]: "environ (log ev s) = environ s"
  by (simp add: log_def)

text \<open>  The effect of the primitive statements on the trace.\<close>

lemma eff_same: "good w s' \<Longrightarrow> trace s' = trace s \<Longrightarrow> eff w s s' []"
  by (simp add: eff_def fresh_def)

lemma eff_abort: "good w s' \<Longrightarrow> trace s' = trace s \<Longrightarrow> status s' \<noteq> Running \<Longrightarrow> eff w s s' seg"
  by (simp add: eff_def fresh_def)

lemma eff_log:
  assumes "eff w (log ev s) s' seg"
  shows "eff w s s' (erase ev # seg)"
proof -
  from assms have p: "prefix (trace s @ [ev]) (trace s')" by (simp add: eff_def)
  then obtain r where r: "trace s' = trace s @ ev # r" by (auto simp: prefix_def)
  then have f1: "fresh s s' = erase ev # fresh (log ev s) s'"
    by (simp add: fresh_def)
  from r have "prefix (trace s) (trace s')" by simp
  with assms f1 show ?thesis by (simp add: eff_def)
qed

lemma eff_call:
  assumes "good w s" and "fails w ev = None \<Longrightarrow> eff w (log ev s) (k (log ev s)) seg"
  shows "eff w s (call w ev k s) (erase ev # seg)"
proof (cases "fails w ev")
  case None
  with assms(2) show ?thesis by (simp add: call_def eff_log)
next
  case (Some x)
  have "eff w (log ev s) (raise x (log ev s)) seg"
    using assms(1) by (intro eff_abort) simp_all
  with Some show ?thesis by (simp add: call_def eff_log)
qed

lemma eff_cred:
  assumes "good w s" and "n \<noteq> ''TOKENIZERS_PARALLELISM''"
    and "\<And>v s1. good w s1 \<Longrightarrow> eff w s1 (k v s1) seg"
  shows "eff w s (env_or_getpass w n p k s) (cred w n p @ seg)"
proof -
  let ?s1 = "log (EnvGet n None) s"
  have g1: "good w ?s1" using assms(1) by simp
  have e: "environ ?s1 n = env0 w n" using assms(1,2) by (simp add: good_def)
  show ?thesis
  proof (cases "needs_prompt w n")
    case True
    have "eff w ?s1 (call w (Getpass p) (k (typed w p)) ?s1) (erase (Getpass p) # seg)"
      using g1 assms(3) by (intro eff_call) simp_all
    then have "eff w s (call w (Getpass p) (k (typed w p)) ?s1) (erase (EnvGet n None) # erase (Getpass p) # seg)"
      by (rule eff_log)
    moreover have "env_or_getpass w n p k s = call w (Getpass p) (k (typed w p)) ?s1"
      using True e by (auto simp: env_or_getpass_def Let_def needs_prompt_def)
    ultimately show ?thesis using True by (simp add: cred_def)
  next
    case False
    then obtain v where v: "env0 w n = Some v" "v \<noteq> []"
      by (auto simp: needs_prompt_def)
    have "eff w ?s1 (k v ?s1) seg" using g1 assms(3) by simp
    then have "eff w s (k v ?s1) (erase (EnvGet n None) # seg)" by (rule eff_log)
    moreover have "env_or_getpass w n p k s = k v ?s1"
      using v e by (simp add: env_or_getpass_def Let_def)
    ultimately show ?thesis using False by (simp add: cred_def)
  qed
qed

lemma eff_env_get_default:
  assumes "good w s" and "\<And>v s1. good w s1 \<Longrightarrow> eff w s1 (k v s1) seg"
  shows "eff w s (env_get_default n d k s) (EnvGet n (Some d) # seg)"
proof -
  let ?s1 = "log (EnvGet n (Some d)) s"
  have g1: "good w ?s1" using assms(1) by simp
  have "eff w ?s1 (env_get_default n d k s) seg"
    using g1 assms(2) by (auto simp: env_get_default_def Let_def split: option.splits)
  then have "eff w s (env_get_default n d k s) (erase (EnvGet n (Some d)) # seg)" by (rule eff_log)
  then show ?thesis by simp
qed

lemma eff_env_set:
  assumes "good w s"
  shows "eff w s (env_set ''TOKENIZERS_PARALLELISM'' v s) [EnvSet ''TOKENIZERS_PARALLELISM'' v]"
proof -
  have "eff w (log (EnvSet ''TOKENIZERS_PARALLELISM'' v) s) (env_set ''TOKENIZERS_PARALLELISM'' v s) []"
    using assms by (intro eff_same) (simp_all add: env_set_def good_def log_def)
  then have "eff w s (env_set ''TOKENIZERS_PARALLELISM'' v s) [erase (EnvSet ''TOKENIZERS_PARALLELISM'' v)]"
    by (rule eff_log)
  then show ?thesis by simp
qed

lemma eff_trans:
  assumes a: "eff w s s1 a" and b: "eff w s1 s2 b"
    and stuck: "status s1 \<noteq> Running \<Longrightarrow> s2 = s1"
  shows "eff w s s2 (a @ b)"
proof -
  from a obtain t1 where t1: "trace s1 = trace s @ t1" by (auto simp: eff_def prefix_def)
  from b obtain t2 where t2: "trace s2 = trace s1 @ t2" by (auto simp: eff_def prefix_def)
  have f1: "fresh s s1 = map erase t1" using t1 by (simp add: fresh_def)
  have f2: "fresh s1 s2 = map erase t2" using t2 by (simp add: fresh_def)
  have f: "fresh s s2 = map erase t1 @ map erase t2" using t1 t2 by (simp add: fresh_def)
  show ?thesis
  proof (cases "status s1 = Running")
    case True
    with a f1 have "map erase t1 = a" by (simp add: eff_def)
    with b f f2 t1 t2 show ?thesis by (auto simp: eff_def)
  next
    case False
    then have "s2 = s1" by (rule stuck)
    with a False show ?thesis by (auto simp: eff_def intro: prefix_prefix)
  qed
qed

text \<open>  Running a list of statements: once an exception is raised nothing changes any more.\<close>

lemma run_Nil [simp]: "run [] s = s"
  by (simp add: run_def)

lemma run_Cons [simp]: "run (f # fs) s = run fs (step f s)"
  by (simp add: run_def)

lemma run_append: "run (fs @ gs) s = run gs (run fs s)"
  by (simp add: run_def)

lemma run_stuck: "status s \<noteq> Running \<Longrightarrow> run fs s = s"
  by (induction fs) (simp_all add: step_def)

lemma stmt_okI: "(\<And>s. good w s \<Longrightarrow> eff w s (f s) seg) \<Longrightarrow> stmt_ok w f seg"
  by (simp add: stmt_ok_def)

lemma eff_step:
  assumes "stmt_ok w f seg" and "good w s"
  shows "eff w s (step f s) seg"
proof (cases "status s = Running")
  case True
  with assms show ?thesis by (simp add: step_def stmt_ok_def)
next
  case False
  with assms(2) show ?thesis by (simp add: step_def eff_abort)
qed

lemma eff_run:
  assumes "list_all2 (stmt_ok w) fs segs" and "good w s"
  shows "eff w s (run fs s) (concat segs)"
  using assms
proof (induction fs segs arbitrary: s rule: list_all2_induct)
  case Nil
  then show ?case by (simp add: eff_same)
next
  case (Cons f fs seg segs)
  have 1: "eff w s (step f s) seg" using Cons.hyps(1) Cons.prems by (rule eff_step)
  then have g: "good w (step f s)" by (simp add: eff_def)
  have 2: "eff w (step f s) (run fs (step f s)) (concat segs)" using g by (rule Cons.IH)
  have "eff w s (run fs (step f s)) (seg @ concat segs)"
    using 1 2 by (rule eff_trans) (simp add: run_stuck)
  then show ?case by simp
qed

lemma eff_call':
  assumes "good w s" and "erase ev = e"
    and "fails w ev = None \<Longrightarrow> eff w (log ev s) (k (log ev s)) seg"
  shows "eff w s (call w ev k s) (e # seg)"
  using eff_call [OF assms(1), of ev k seg] assms(2,3) by simp

lemma eff_log': "erase ev = e \<Longrightarrow> good w s \<Longrightarrow> eff w s (log ev s) [e]"
  using eff_log [of w ev s "log ev s" "[]"] by (simp add: eff_same)

lemma eff_cred0:
  assumes "good w s" and "n \<noteq> ''TOKENIZERS_PARALLELISM''"
    and "\<And>v s1. good w s1 \<Longrightarrow> eff w s1 (k v s1) []"
  shows "eff w s (env_or_getpass w n p k s) (cred w n p)"
  using eff_cred [OF assms(1,2), of k "[]" p] assms(3) by simp

lemma trace_print_docs [simp]: "trace (print_docs ds s) = trace s"
  by (induction ds arbitrary: s) (simp_all split: option.splits)

lemma good_print_docs [simp]: "good w (print_docs ds s) = good w s"
  by (induction ds arbitrary: s) (simp_all split: option.splits)

lemma good_cls:
  "good w s \<Longrightarrow> cls (oai s) = OpenAI"
  "good w s \<Longrightarrow> cls (az_oai s) = AzureOpenAI"
  "good w s \<Longrightarrow> cls (hf s) = HuggingFace"
  "good w s \<Longrightarrow> cls (vtx s) = VertexAI"
  "good w s \<Longrightarrow> cls (co s) = Cohere"
  by (simp_all add: good_def)

lemma good_upd [simp]:
  "good w (s\<lparr>api_key := v\<rparr>) = good w s"
  "good w (s\<lparr>api_version := v\<rparr>) = good w s"
  "good w (s\<lparr>azure_endpoint := v\<rparr>) = good w s"
  "good w (s\<lparr>deployment_name := v\<rparr>) = good w s"
  "good w (s\<lparr>test := e\<rparr>) = good w s"
  "good w (s\<lparr>sentences := ts\<rparr>) = good w s"
  "good w (s\<lparr>embeddings := es\<rparr>) = good w s"
  "good w (s\<lparr>index := i\<rparr>) = good w s"
  "good w (s\<lparr>data := d\<rparr>) = good w s"
  "good w (s\<lparr>query_embedding := e\<rparr>) = good w s"
  "good w (s\<lparr>query := q\<rparr>) = good w s"
  "good w (s\<lparr>results := r\<rparr>) = good w s"
  by (simp_all add: good_def)

lemma good_client_upd [simp]:
  "good w s \<Longrightarrow> good w (s\<lparr>oai := c\<rparr>) = (cls c = OpenAI)"
  "good w s \<Longrightarrow> good w (s\<lparr>az_oai := c\<rparr>) = (cls c = AzureOpenAI)"
  "good w s \<Longrightarrow> good w (s\<lparr>hf := c\<rparr>) = (cls c = HuggingFace)"
  "good w s \<Longrightarrow> good w (s\<lparr>vtx := c\<rparr>) = (cls c = VertexAI)"
  "good w s \<Longrightarrow> good w (s\<lparr>co := c\<rparr>) = (cls c = Cohere)"
  by (simp_all add: good_def)

lemma from_yaml_schema:
  "from_yaml w ''./schema.yaml'' s =
     call w (FromYaml ''./schema.yaml'') (\<lambda>s. s\<lparr>index := yaml_index\<rparr>) s"
  by (simp add: from_yaml_def schema_file_def yaml_index_def)

lemmas eff_intros = eff_call' eff_cred0 eff_cred eff_env_get_default eff_env_set eff_log' eff_same

lemmas erased = oai0_def az0_def hf0_def vtx0_def co0_def idx0_def

lemmas shown = print_dims_def display_test_def print_test_def display_first_def

text \<open>  Every statement of every cell has the effect its segment of the outline describes.\<close>

lemma cell1_ok: "list_all2 (stmt_ok w) (cell1 w) (segs1 w)"
  by (auto simp: cell1_def segs1_def stmt_ok_def intro!: eff_intros)

lemma cell4_ok: "list_all2 (stmt_ok w) (cell4 w) (segs4 w)"
  by (auto simp: cell4_def segs4_def stmt_ok_def intro!: eff_intros)

lemma cell5_ok: "list_all2 (stmt_ok w) (cell5 w) (segs5 w)"
  by (auto simp: cell5_def segs5_def stmt_ok_def Let_def good_cls erased shown intro!: eff_intros)

lemma cell6_ok: "list_all2 (stmt_ok w) (cell6 w) (segs6 w)"
  by (auto simp: cell6_def segs6_def stmt_ok_def Let_def good_cls erased shown intro!: eff_intros split: list.splits)

lemma cell7_ok: "list_all2 (stmt_ok w) (cell7 w) (segs7 w)"
  by (auto simp: cell7_def segs7_def stmt_ok_def Let_def good_cls erased shown intro!: eff_intros)

lemma cell9_ok: "list_all2 (stmt_ok w) (cell9 w) (segs9 w)"
  by (auto simp: cell9_def segs9_def stmt_ok_def intro!: eff_intros)

lemma cell10_ok: "list_all2 (stmt_ok w) (cell10 w) (segs10 w)"
  by (auto simp: cell10_def segs10_def stmt_ok_def Let_def good_cls erased shown intro!: eff_intros)

lemma cell11_ok: "list_all2 (stmt_ok w) (cell11 w) (segs11 w)"
  by (auto simp: cell11_def segs11_def stmt_ok_def Let_def good_cls erased shown intro!: eff_intros split: list.splits)

lemma cell13_ok: "list_all2 (stmt_ok w) (cell13 w) (segs13 w)"
  by (auto simp: cell13_def segs13_def stmt_ok_def Let_def good_cls erased shown intro!: eff_intros)

lemma cell14_ok: "list_all2 (stmt_ok w) (cell14 w) (segs14 w)"
  by (auto simp: cell14_def segs14_def stmt_ok_def Let_def good_cls erased shown intro!: eff_intros)

lemma cell16_ok: "list_all2 (stmt_ok w) (cell16 w) (segs16 w)"
  by (auto simp: cell16_def segs16_def stmt_ok_def Let_def good_cls erased shown intro!: eff_intros)

lemma cell18_ok: "list_all2 (stmt_ok w) (cell18 w) (segs18 w)"
  by (auto simp: cell18_def segs18_def stmt_ok_def intro!: eff_intros)

lemma cell20_ok: "list_all2 (stmt_ok w) (cell20 w) (segs20 w)"
  by (auto simp: cell20_def segs20_def stmt_ok_def Let_def good_cls erased shown intro!: eff_intros)

lemma cell23_ok: "list_all2 (stmt_ok w) (cell23 w) (segs23 w)"
  by (auto simp: cell23_def segs23_def stmt_ok_def Let_def good_cls erased shown from_yaml_schema
      intro!: eff_intros)

lemma cell24_ok: "list_all2 (stmt_ok w) (cell24 w) (segs24 w)"
  by (auto simp: cell24_def segs24_def stmt_ok_def intro!: eff_intros)

lemma cell25_ok: "list_all2 (stmt_ok w) (cell25 w) (segs25 w)"
  by (auto simp: cell25_def segs25_def stmt_ok_def Let_def good_cls erased shown intro!: eff_intros)

lemma cell26_ok: "list_all2 (stmt_ok w) (cell26 w) (segs26 w)"
  by (auto simp: cell26_def segs26_def stmt_ok_def Let_def good_cls erased shown intro!: eff_intros)

lemma cell27_ok: "list_all2 (stmt_ok w) (cell27 w) (segs27 w)"
  by (auto simp: cell27_def segs27_def stmt_ok_def Let_def good_cls erased shown intro!: eff_intros)

lemmas cells_ok = cell1_ok cell4_ok cell5_ok cell6_ok cell7_ok cell9_ok cell10_ok cell11_ok
  cell13_ok cell14_ok cell16_ok cell18_ok cell20_ok cell23_ok cell24_ok cell25_ok cell26_ok
  cell27_ok

lemma program_ok: "list_all2 (stmt_ok w) (program w) (segments w)"
  unfolding program_def segments_def by (intro list_all2_appendI cells_ok)

lemma good_init: "good w (init w)"
  by (simp add: good_def init_def)

lemma notebook_eff: "eff w (init w) (notebook w) (outline w)"
  unfolding notebook_def outline_def using program_ok good_init by (rule eff_run)

lemma trace_init [simp]: "trace (init w) = []"
  by (simp add: init_def)

text \<open>  Every run logs, up to \<open>erase\<close>, an initial part of the outline, and a run that completes
  logs all of it.\<close>

lemma trace_outline: "prefix (map erase (trace (notebook w))) (outline w)"
  using notebook_eff [of w] by (simp add: eff_def fresh_def)

lemma trace_outline_complete:
  "status (notebook w) = Running \<Longrightarrow> map erase (trace (notebook w)) = outline w"
  using notebook_eff [of w] by (simp add: eff_def fresh_def)

lemma list_ex_append_iff: "list_ex P (xs @ ys) = (list_ex P xs \<or> list_ex P ys)"
  by (induction xs) auto

lemma no_later_append:
  "no_later P Q (xs @ ys) = (no_later P Q xs \<and> no_later P Q ys \<and> (list_ex Q xs \<longrightarrow> \<not> list_ex P ys))"
  by (induction xs) (auto simp: list_ex_iff)

lemma no_later_prefix: "prefix xs ys \<Longrightarrow> no_later P Q ys \<Longrightarrow> no_later P Q xs"
  by (auto simp: prefix_def no_later_append)

lemma no_later_map: "no_later P Q (map f xs) = no_later (\<lambda>x. P (f x)) (\<lambda>x. Q (f x)) xs"
  by (induction xs) (simp_all add: list_ex_iff)

lemma led_append: "led P Q b (xs @ ys) = (led P Q b xs \<and> led P Q (b \<or> list_ex P xs) ys)"
  by (induction xs arbitrary: b) (auto simp: list_ex_iff)

lemma has_before_prefix: "prefix xs ys \<Longrightarrow> has_before P Q ys \<Longrightarrow> has_before P Q xs"
  by (auto simp: prefix_def has_before_def led_append)

lemma led_map: "led P Q b (map f xs) = led (\<lambda>x. P (f x)) (\<lambda>x. Q (f x)) b xs"
  by (induction xs arbitrary: b) simp_all

lemma has_before_map: "has_before P Q (map f xs) = has_before (\<lambda>x. P (f x)) (\<lambda>x. Q (f x)) xs"
  by (simp add: has_before_def led_map)

lemma receiver_erase [simp]: "receiver (erase ev) = receiver ev"
  by (cases ev) simp_all

lemma constructs_erase [simp]: "constructs p (erase ev) = constructs p ev"
  by (cases ev) simp_all

lemma reads_var_erase [simp]: "reads_var v (erase ev) = reads_var v ev"
  by (cases ev) simp_all

lemma obtains_cred_erase [simp]: "obtains_cred p (erase ev) = obtains_cred p ev"
  by (cases ev) simp_all

lemma is_create_erase [simp]: "is_create (erase ev) = is_create ev"
  by (cases ev) simp_all

lemma is_load_erase [simp]: "is_load (erase ev) = is_load ev"
  by (cases ev) simp_all

lemma is_query_erase [simp]: "is_query (erase ev) = is_query ev"
  by (cases ev) simp_all

lemma is_delete_erase [simp]: "is_delete (erase ev) = is_delete ev"
  by (cases ev) simp_all

lemma is_query_embedding_erase [simp]: "is_query_embedding (erase ev) = is_query_embedding ev"
  by (cases ev) simp_all

lemma embeds_on_erase [simp]: "embeds_on p (erase ev) = embeds_on p ev"
  by (simp add: embeds_on_def)

lemma is_embed_erase [simp]: "is_embed (erase ev) = is_embed ev"
  by (simp add: is_embed_def)

lemma is_index_op_erase [simp]: "is_index_op (erase ev) = is_index_op ev"
  by (simp add: is_index_op_def)

lemma creds_first_erase: "creds_first (map erase tr) = creds_first tr"
  by (simp add: creds_first_def no_later_map has_before_map)

lemma client_first_erase: "client_first (map erase tr) = client_first tr"
  by (simp add: client_first_def no_later_map has_before_map)

lemma index_order_erase: "index_order (map erase tr) = index_order tr"
  by (simp add: index_order_def no_later_map has_before_map)

lemma flow_amended_erase: "flow_amended (map erase tr) = flow_amended tr"
  by (simp add: flow_amended_def creds_first_erase client_first_erase index_order_erase no_later_map)

lemma flow_amended_prefix: "prefix xs ys \<Longrightarrow> flow_amended ys \<Longrightarrow> flow_amended xs"
  by (auto simp: flow_amended_def creds_first_def client_first_def index_order_def
      intro: no_later_prefix has_before_prefix)

lemma list_ex_cred:
  "list_ex P (cred w n p) = (P (EnvGet n None) \<or> (needs_prompt w n \<and> P (Getpass p)))"
  by (simp add: cred_def)

lemma no_later_cred:
  "\<not> Q (EnvGet n None) \<Longrightarrow> \<not> Q (Getpass p) \<Longrightarrow> no_later P Q (cred w n p @ rest) = no_later P Q rest"
  by (simp add: cred_def)

lemma led_cred:
  "\<not> Q (EnvGet n None) \<Longrightarrow> \<not> Q (Getpass p) \<Longrightarrow> \<not> P (Getpass p) \<Longrightarrow>
   led P Q b (cred w n p @ rest) = led P Q (b \<or> P (EnvGet n None)) rest"
  by (simp add: cred_def)

lemmas outline_defs = outline_def segments_def segs1_def segs4_def segs5_def segs6_def segs7_def
  segs9_def segs10_def segs11_def segs13_def segs14_def segs16_def segs18_def segs20_def
  segs23_def segs24_def segs25_def segs26_def segs27_def erased test_sentence_def

text \<open>  The order predicates, by positions in the trace.\<close>

lemma list_ex_nth: "list_ex P xs \<longleftrightarrow> (\<exists>j<length xs. P (xs ! j))"
  by (metis in_set_conv_nth list_ex_iff)

lemma no_later_iff:
  "no_later P Q tr \<longleftrightarrow> (\<forall>i j. i < j \<longrightarrow> j < length tr \<longrightarrow> Q (tr ! i) \<longrightarrow> \<not> P (tr ! j))"
proof (induction tr)
  case Nil
  then show ?case by simp
next
  case (Cons x xs)
  have "(\<forall>i j. i < j \<longrightarrow> j < length (x # xs) \<longrightarrow> Q ((x # xs) ! i) \<longrightarrow> \<not> P ((x # xs) ! j))
      \<longleftrightarrow> (Q x \<longrightarrow> (\<forall>j<length xs. \<not> P (xs ! j))) \<and>
          (\<forall>i j. i < j \<longrightarrow> j < length xs \<longrightarrow> Q (xs ! i) \<longrightarrow> \<not> P (xs ! j))"
    (is "?L \<longleftrightarrow> ?A \<and> ?B")
  proof
    assume l: ?L
    have ?A
    proof (intro impI allI)
      fix j assume "Q x" "j < length xs"
      with l [rule_format, of 0 "Suc j"] show "\<not> P (xs ! j)" by simp
    qed
    moreover have ?B
    proof (intro impI allI)
      fix i j assume "i < j" "j < length xs" "Q (xs ! i)"
      with l [rule_format, of "Suc i" "Suc j"] show "\<not> P (xs ! j)" by simp
    qed
    ultimately show "?A \<and> ?B" ..
  next
    assume r: "?A \<and> ?B"
    show ?L
    proof (intro impI allI)
      fix i j assume a: "i < j" "j < length (x # xs)" "Q ((x # xs) ! i)"
      then obtain j' where j: "j = Suc j'" by (cases j) auto
      show "\<not> P ((x # xs) ! j)"
      proof (cases i)
        case 0
        with a j r show ?thesis by simp
      next
        case (Suc i')
        with a j r show ?thesis by simp
      qed
    qed
  qed
  with Cons show ?case by (simp add: list_ex_nth)
qed

lemma led_iff:
  "led P Q seen tr \<longleftrightarrow> (\<forall>j<length tr. Q (tr ! j) \<longrightarrow> seen \<or> (\<exists>i<j. P (tr ! i)))"
proof (induction tr arbitrary: seen)
  case Nil
  then show ?case by simp
next
  case (Cons x xs)
  have "(\<forall>j<length (x # xs). Q ((x # xs) ! j) \<longrightarrow> seen \<or> (\<exists>i<j. P ((x # xs) ! i)))
     \<longleftrightarrow> (Q x \<longrightarrow> seen) \<and> (\<forall>j<length xs. Q (xs ! j) \<longrightarrow> (seen \<or> P x) \<or> (\<exists>i<j. P (xs ! i)))"
    (is "?L \<longleftrightarrow> ?A \<and> ?B")
  proof
    assume l: ?L
    have ?A using l [rule_format, of 0] by simp
    moreover have ?B
    proof (intro impI allI)
      fix j assume a: "j < length xs" "Q (xs ! j)"
      with l [rule_format, of "Suc j"] have "seen \<or> (\<exists>i<Suc j. P ((x # xs) ! i))" by simp
      then show "(seen \<or> P x) \<or> (\<exists>i<j. P (xs ! i))"
      proof
        assume seen then show ?thesis by simp
      next
        assume "\<exists>i<Suc j. P ((x # xs) ! i)"
        then obtain i where i: "i < Suc j" "P ((x # xs) ! i)" by blast
        show ?thesis
        proof (cases i)
          case 0
          with i show ?thesis by simp
        next
          case (Suc i')
          with i have "i' < j" "P (xs ! i')" by simp_all
          then show ?thesis by blast
        qed
      qed
    qed
    ultimately show "?A \<and> ?B" ..
  next
    assume r: "?A \<and> ?B"
    show ?L
    proof (intro impI allI)
      fix j assume a: "j < length (x # xs)" "Q ((x # xs) ! j)"
      show "seen \<or> (\<exists>i<j. P ((x # xs) ! i))"
      proof (cases j)
        case 0
        with a r show ?thesis by simp
      next
        case (Suc j')
        with a r have "(seen \<or> P x) \<or> (\<exists>i<j'. P (xs ! i))" by simp
        then consider seen | "P x" | i where "i < j'" "P (xs ! i)" by blast
        then show ?thesis
        proof cases
          case 1 then show ?thesis by simp
        next
          case 2
          then have "0 < j \<and> P ((x # xs) ! 0)" using Suc by simp
          then show ?thesis by blast
        next
          case 3
          then have "Suc i < j \<and> P ((x # xs) ! Suc i)" using Suc by simp
          then show ?thesis by blast
        qed
      qed
    qed
  qed
  with Cons show ?case by simp
qed

lemma has_before_iff:
  "has_before P Q tr \<longleftrightarrow> (\<forall>j<length tr. Q (tr ! j) \<longrightarrow> (\<exists>i<j. P (tr ! i)))"
  by (simp add: has_before_def led_iff)

text \<open>  The order of the outline, computed with the prompts left symbolic.\<close>

lemma index_order_outline: "index_order (outline w)"
  by (simp add: index_order_def has_before_def outline_defs no_later_cred led_cred list_ex_append_iff list_ex_cred)

lemma embed_order_outline:
  "no_later (\<lambda>ev. is_embed ev \<and> \<not> is_query_embedding ev) is_index_op (outline w)"
  "no_later is_embed (\<lambda>ev. is_query ev \<or> is_delete ev) (outline w)"
  by (simp_all add: is_embed_def is_index_op_def outline_defs no_later_cred led_cred list_ex_append_iff list_ex_cred)

lemma client_first_outline: "client_first (outline w)"
  unfolding client_first_def
proof
  fix p show "no_later (constructs p) (embeds_on p) (outline w) \<and>
      has_before (constructs p) (embeds_on p) (outline w)"
    by (cases p) (simp_all add: embeds_on_def has_before_def outline_defs no_later_cred led_cred list_ex_append_iff list_ex_cred)
qed

lemma creds_first_outline: "creds_first (outline w)"
  unfolding creds_first_def
proof
  fix p show "no_later (obtains_cred p) (constructs p) (outline w) \<and>
      (\<forall>v\<in>set (cred_vars p). has_before (reads_var v) (constructs p) (outline w))"
    by (cases p) (simp_all add: has_before_def outline_defs no_later_cred led_cred list_ex_append_iff list_ex_cred)
qed

lemma flow_amended_outline: "flow_amended (outline w)"
  by (simp add: flow_amended_def creds_first_outline client_first_outline embed_order_outline index_order_outline)

lemma flow_amended_trace: "flow_amended (trace (notebook w))"
  using flow_amended_prefix [OF trace_outline flow_amended_outline] by (simp add: flow_amended_erase)

lemma clean_snoc [simp]: "clean w (tr @ [ev]) = (clean w tr \<and> (can_raise ev \<longrightarrow> fails w ev = None))"
  by (auto simp: clean_def)

lemma fail_inv_log_ok:
  "status s = Running \<Longrightarrow> fail_inv w s \<Longrightarrow> can_raise ev \<longrightarrow> fails w ev = None \<Longrightarrow> fail_inv w (log ev s)"
  by (simp add: fail_inv_def)

lemma fail_inv_log_fail:
  "status s = Running \<Longrightarrow> fail_inv w s \<Longrightarrow> can_raise ev \<Longrightarrow> fails w ev = Some x \<Longrightarrow>
   fail_inv w (raise x (log ev s))"
  by (simp add: fail_inv_def)

lemma fail_inv_local:
  "status s = Running \<Longrightarrow> fail_inv w s \<Longrightarrow> local_error x \<Longrightarrow> fail_inv w (raise x s)"
  by (simp add: fail_inv_def)

lemma fail_inv_same:
  "fail_inv w s \<Longrightarrow> trace s' = trace s \<Longrightarrow> status s' = status s \<Longrightarrow> fail_inv w s'"
  by (simp add: fail_inv_def)

lemma keys_inv_log: "keys_inv s \<Longrightarrow> load_keyed ev \<Longrightarrow> keys_inv (log ev s)"
  by (simp add: keys_inv_def log_def)

lemma keys_inv_same: "keys_inv s \<Longrightarrow> trace s' = trace s \<Longrightarrow> data s' = data s \<Longrightarrow> keys_inv s'"
  by (simp add: keys_inv_def)

lemma keyed_make_records: "keyed (make_records ts vs)"
  by (auto simp: keyed_def make_records_def)

lemma depl_inv_log:
  "depl_inv w s \<Longrightarrow> \<not> reads_var ''AZURE_OPENAI_DEPLOYMENT_NAME'' ev \<Longrightarrow> depl_inv w (log ev s)"
  by (simp add: depl_inv_def log_def)

lemma depl_inv_same:
  "depl_inv w s \<Longrightarrow> trace s' = trace s \<Longrightarrow> deployment_name s' = deployment_name s \<Longrightarrow> depl_inv w s'"
  by (simp add: depl_inv_def)

text \<open>  An invariant of every statement, from running states, is an invariant of the run.\<close>

lemma run_inv:
  assumes "\<And>f s. f \<in> set fs \<Longrightarrow> I s \<Longrightarrow> status s = Running \<Longrightarrow> I (f s)" and "I s"
  shows "I (run fs s)"
  using assms
proof (induction fs arbitrary: s)
  case Nil
  then show ?case by simp
next
  case (Cons f fs)
  have "I (step f s)" using Cons.prems by (simp add: step_def)
  then show ?case using Cons.IH Cons.prems(1) by simp
qed

lemma sound_upd [simp]:
  "sound w (s\<lparr>api_key := v\<rparr>) = sound w s"
  "sound w (s\<lparr>api_version := v\<rparr>) = sound w s"
  "sound w (s\<lparr>azure_endpoint := v\<rparr>) = sound w s"
  "sound w (s\<lparr>test := e\<rparr>) = sound w s"
  "sound w (s\<lparr>sentences := ts\<rparr>) = sound w s"
  "sound w (s\<lparr>embeddings := es\<rparr>) = sound w s"
  "sound w (s\<lparr>index := i\<rparr>) = sound w s"
  "sound w (s\<lparr>query_embedding := e\<rparr>) = sound w s"
  "sound w (s\<lparr>query := q\<rparr>) = sound w s"
  "sound w (s\<lparr>results := r\<rparr>) = sound w s"
  by (simp_all add: sound_def fail_inv_def keys_inv_def depl_inv_def)

lemma sound_client_upd [simp]:
  "sound w s \<Longrightarrow> sound w (s\<lparr>oai := c\<rparr>) = (cls c = OpenAI)"
  "sound w s \<Longrightarrow> sound w (s\<lparr>az_oai := c\<rparr>) = (cls c = AzureOpenAI)"
  "sound w s \<Longrightarrow> sound w (s\<lparr>hf := c\<rparr>) = (cls c = HuggingFace)"
  "sound w s \<Longrightarrow> sound w (s\<lparr>vtx := c\<rparr>) = (cls c = VertexAI)"
  "sound w s \<Longrightarrow> sound w (s\<lparr>co := c\<rparr>) = (cls c = Cohere)"
  by (simp_all add: sound_def fail_inv_def keys_inv_def depl_inv_def)

lemma sound_data_upd: "sound w s \<Longrightarrow> keyed d \<Longrightarrow> sound w (s\<lparr>data := d\<rparr>)"
  by (simp add: sound_def fail_inv_def keys_inv_def depl_inv_def)

lemma sound_out [simp]: "sound w (out x s) = sound w s"
  by (simp add: sound_def fail_inv_def keys_inv_def depl_inv_def good_def out_def)

lemma data_log [simp]: "data (log ev s) = data s"
  by (simp add: log_def)

lemma data_raise [simp]: "data (raise x s) = data s"
  by (simp add: raise_def)

lemma deployment_name_log [simp]: "deployment_name (log ev s) = deployment_name s"
  by (simp add: log_def)

lemma deployment_name_raise [simp]: "deployment_name (raise x s) = deployment_name s"
  by (simp add: raise_def)

lemma sound_keyed: "sound w s \<Longrightarrow> keyed (data s)"
  by (simp add: sound_def keys_inv_def)

lemma sound_log:
  assumes "status s = Running" "sound w s" "can_raise ev \<longrightarrow> fails w ev = None" "load_keyed ev"
    "\<not> reads_var ''AZURE_OPENAI_DEPLOYMENT_NAME'' ev"
  shows "sound w (log ev s)"
  using assms by (simp add: sound_def fail_inv_log_ok keys_inv_log depl_inv_log)

lemma sound_raise_local:
  assumes "status s = Running" "sound w s" "local_error x"
  shows "sound w (raise x s)"
  using assms
  by (simp add: sound_def fail_inv_local keys_inv_same [of s] depl_inv_same [of w s])

lemma sound_call:
  assumes "status s = Running" "sound w s" "can_raise ev" "load_keyed ev"
    "\<not> reads_var ''AZURE_OPENAI_DEPLOYMENT_NAME'' ev"
    and k: "\<And>s1. status s1 = Running \<Longrightarrow> sound w s1 \<Longrightarrow> sound w (k s1)"
  shows "sound w (call w ev k s)"
proof (cases "fails w ev")
  case None
  with assms have "sound w (log ev s)" by (intro sound_log) simp_all
  with k [of "log ev s"] assms(1) None show ?thesis by (simp add: call_def)
next
  case (Some x)
  have "sound w (raise x (log ev s))"
    using assms(1-5) Some
    by (simp add: sound_def fail_inv_log_fail
        keys_inv_same [OF keys_inv_log, of s ev] depl_inv_same [OF depl_inv_log, of w s ev])
  with Some show ?thesis by (simp add: call_def)
qed

lemma sound_cred:
  assumes "status s = Running" "sound w s" "n \<noteq> ''AZURE_OPENAI_DEPLOYMENT_NAME''"
    and k: "\<And>v s1. status s1 = Running \<Longrightarrow> sound w s1 \<Longrightarrow> sound w (k v s1)"
  shows "sound w (env_or_getpass w n p k s)"
proof -
  let ?s1 = "log (EnvGet n None) s"
  have s1: "sound w ?s1" "status ?s1 = Running"
    using assms(1-3) by (simp_all add: sound_log)
  have "sound w (call w (Getpass p) (k (typed w p)) ?s1)"
    using s1 k by (intro sound_call) simp_all
  moreover have "\<And>v. sound w (k v ?s1)" using s1 k by simp
  ultimately show ?thesis
    by (simp add: env_or_getpass_def Let_def split: option.splits)
qed

lemma sound_deployment:
  assumes "status s = Running" "sound w s"
  shows "sound w (env_get_default ''AZURE_OPENAI_DEPLOYMENT_NAME'' deployment_default
           (\<lambda>v s. s\<lparr>deployment_name := v\<rparr>) s)"
proof -
  have e: "environ s ''AZURE_OPENAI_DEPLOYMENT_NAME'' = env0 w ''AZURE_OPENAI_DEPLOYMENT_NAME''"
    using assms(2) by (simp add: sound_def good_def)
  show ?thesis
    using assms e
    by (auto simp: env_get_default_def Let_def sound_def good_def fail_inv_def keys_inv_def
        depl_inv_def log_def split: option.splits)
qed

lemma sound_env_set:
  assumes "status s = Running" "sound w s"
  shows "sound w (env_set ''TOKENIZERS_PARALLELISM'' v s)"
  using assms
  by (auto simp: env_set_def sound_def good_def fail_inv_def keys_inv_def depl_inv_def log_def)

lemma sound_print_docs: "status s = Running \<Longrightarrow> sound w s \<Longrightarrow> sound w (print_docs ds s)"
proof (induction ds arbitrary: s)
  case Nil
  then show ?case by simp
next
  case (Cons d ds)
  then show ?case
    by (auto simp: sound_raise_local split: option.splits)
qed

lemmas sound_intros = sound_call sound_cred sound_deployment sound_env_set sound_log
  sound_raise_local sound_data_upd sound_print_docs keyed_make_records

text \<open>  Every statement of every cell preserves \<open>sound\<close>.\<close>

lemma pres1: "list_all (pres w) (cell1 w)"
  by (auto simp: cell1_def pres_def intro!: sound_intros)

lemma pres4: "list_all (pres w) (cell4 w)"
  by (auto simp: cell4_def pres_def intro!: sound_intros)

lemma pres5: "list_all (pres w) (cell5 w)"
  by (auto simp: cell5_def pres_def Let_def shown intro!: sound_intros)

lemma pres6: "list_all (pres w) (cell6 w)"
  by (auto simp: cell6_def pres_def Let_def shown intro!: sound_intros split: list.splits)

lemma pres7: "list_all (pres w) (cell7 w)"
  by (auto simp: cell7_def pres_def Let_def shown intro!: sound_intros)

lemma pres9: "list_all (pres w) (cell9 w)"
  by (auto simp: cell9_def pres_def deployment_default_def [symmetric] intro!: sound_intros)

lemma pres10: "list_all (pres w) (cell10 w)"
  by (auto simp: cell10_def pres_def Let_def shown intro!: sound_intros)

lemma pres11: "list_all (pres w) (cell11 w)"
  by (auto simp: cell11_def pres_def Let_def shown intro!: sound_intros split: list.splits)

lemma pres13: "list_all (pres w) (cell13 w)"
  by (auto simp: cell13_def pres_def Let_def shown intro!: sound_intros)

lemma pres14: "list_all (pres w) (cell14 w)"
  by (auto simp: cell14_def pres_def Let_def shown intro!: sound_intros)

lemma pres16: "list_all (pres w) (cell16 w)"
  by (auto simp: cell16_def pres_def Let_def shown intro!: sound_intros)

lemma pres18: "list_all (pres w) (cell18 w)"
  by (auto simp: cell18_def pres_def intro!: sound_intros)

lemma pres20: "list_all (pres w) (cell20 w)"
  by (auto simp: cell20_def pres_def Let_def shown intro!: sound_intros)

lemma pres23: "list_all (pres w) (cell23 w)"
  by (auto simp: cell23_def pres_def Let_def shown from_yaml_schema intro!: sound_intros)

lemma pres24: "list_all (pres w) (cell24 w)"
  by (auto simp: cell24_def pres_def intro!: sound_intros)

lemma pres25: "list_all (pres w) (cell25 w)"
  by (auto simp: cell25_def pres_def Let_def shown sound_keyed intro!: sound_intros)

lemma pres26: "list_all (pres w) (cell26 w)"
  by (auto simp: cell26_def pres_def Let_def shown intro!: sound_intros)

lemma pres27: "list_all (pres w) (cell27 w)"
  by (auto simp: cell27_def pres_def Let_def shown intro!: sound_intros)

lemma program_pres: "list_all (pres w) (program w)"
  by (simp add: program_def pres1 pres4 pres5 pres6 pres7 pres9 pres10 pres11 pres13 pres14
      pres16 pres18 pres20 pres23 pres24 pres25 pres26 pres27)

lemma sound_init: "sound w (init w)"
  using good_init [of w]
  by (simp add: sound_def fail_inv_def keys_inv_def depl_inv_def init_def clean_def keyed_def)

lemma sound_notebook: "sound w (notebook w)"
  unfolding notebook_def
proof (rule run_inv)
  show "sound w (init w)" by (rule sound_init)
next
  fix f s assume "f \<in> set (program w)" "sound w s" "status s = Running"
  then show "sound w (f s)"
    using program_pres [of w] by (simp add: list_all_iff pres_def)
qed

lemma is_getpass_erase [simp]: "is_getpass (erase ev) = is_getpass ev"
  by (cases ev) simp_all

lemma prompt_next_erase [simp]: "prompt_next (map erase tr) = prompt_next tr"
  by (cases tr) simp_all


lemma prompt_next_append: "prompt_next xs \<Longrightarrow> prompt_next (xs @ ys)"
  by (cases xs) simp_all


lemma prompted_cred_same: "needs_prompt w v \<Longrightarrow> prompted v (cred w v p @ rest)"
  by (simp add: cred_def)

lemma prompted_cred_other: "n \<noteq> v \<Longrightarrow> prompted v (cred w n p @ rest) = prompted v rest"
  by (simp add: cred_def)

lemma prompted_cred_last: "n \<noteq> v \<Longrightarrow> prompted v (cred w n p) = False"
  by (simp add: cred_def)

lemma prompted_skip: "\<not> reads_var v e \<Longrightarrow> prompted v (e # tr) = prompted v tr"
  by simp

lemma prompted_outline:
  "list_all (\<lambda>v. needs_prompt w v \<longrightarrow> prompted v (outline w)) prompting_vars"
  by (simp add: prompting_vars_def outline_defs prompted_cred_same prompted_cred_other
      prompted_cred_last)

lemma prompting_vars_eq:
  "prompting_vars = remove1 ''AZURE_OPENAI_DEPLOYMENT_NAME'' credential_vars"
  by (simp add: prompting_vars_def credential_vars_def)


lemma list_all_prefix: "prefix xs ys \<Longrightarrow> list_all R ys \<Longrightarrow> list_all R xs"
  by (auto simp: prefix_def)

lemma list_all_trace:
  assumes "\<And>ev. R (erase ev) = R ev" and "list_all R (outline w)"
  shows "list_all R (trace (notebook w))"
proof -
  have "list_all R (map erase (trace (notebook w)))"
    using trace_outline assms(2) by (rule list_all_prefix)
  then show ?thesis using assms(1) by (simp add: list_all_iff)
qed

lemma list_ex_trace:
  assumes "\<And>ev. R (erase ev) = R ev" and "status (notebook w) = Running"
    and "list_ex R (outline w)"
  shows "list_ex R (trace (notebook w))"
proof -
  have "list_ex R (map erase (trace (notebook w)))"
    using trace_outline_complete [OF assms(2)] assms(3) by simp
  then show ?thesis using assms(1) by (simp add: list_ex_iff)
qed

lemma list_all_cred: "R (EnvGet n None) \<Longrightarrow> R (Getpass p) \<Longrightarrow> list_all R (cred w n p)"
  by (simp add: cred_def)

lemma map_filter_append: "List.map_filter f (xs @ ys) = List.map_filter f xs @ List.map_filter f ys"
  by (simp add: List.map_filter_def)

lemma map_filter_cred:
  "f (EnvGet n None) = None \<Longrightarrow> f (Getpass p) = None \<Longrightarrow> List.map_filter f (cred w n p) = []"
  by (simp add: cred_def List.map_filter_simps)

lemma providers_of_iff: "p \<in> providers_of sel tr \<longleftrightarrow> (\<exists>ev\<in>set tr. sel ev = Some p)"
  by (induction tr) (auto simp: providers_of_def List.map_filter_simps split: option.splits)

lemma providers_of_erase:
  assumes "\<And>ev. sel (erase ev) = sel ev"
  shows "providers_of sel (map erase tr) = providers_of sel tr"
  using assms by (auto simp: providers_of_iff)

lemma providers_of_prefix: "prefix xs ys \<Longrightarrow> providers_of sel xs \<subseteq> providers_of sel ys"
  by (auto simp: prefix_def providers_of_iff)

lemma aembed_many_on_erase [simp]: "aembed_many_on (erase ev) = aembed_many_on ev"
  by (cases ev) simp_all

lemma embed_many_on_erase [simp]: "embed_many_on (erase ev) = embed_many_on ev"
  by (cases ev) simp_all

lemma from_yaml_ok_erase [simp]: "from_yaml_ok (erase ev) = from_yaml_ok ev"
  by (cases ev) simp_all

lemma listing_ok_erase [simp]: "listing_ok (erase ev) = listing_ok ev"
  by (cases ev) simp_all

lemma is_from_yaml_erase [simp]: "is_from_yaml (erase ev) = is_from_yaml ev"
  by (cases ev) simp_all

lemma is_listing_erase [simp]: "is_listing (erase ev) = is_listing ev"
  by (cases ev) simp_all

lemma uses_index_erase [simp]: "uses_index (erase ev) = uses_index ev"
  by (cases ev) simp_all

lemma as_buffer_arg_erase [simp]: "as_buffer_arg (erase ev) = as_buffer_arg ev"
  by (cases ev) simp_all

lemma buffer_ok_erase [simp]: "buffer_ok (erase ev) = buffer_ok ev"
  by (simp add: buffer_ok_def)

lemma query_fields_ok_erase [simp]: "query_fields_ok (erase ev) = query_fields_ok ev"
  by (cases ev) simp_all

lemma is_new_query_erase [simp]: "is_new_query (erase ev) = is_new_query ev"
  by (cases ev) simp_all

lemma aembed_outline: "providers_of aembed_many_on (outline w) = {OpenAI, AzureOpenAI}"
  by (simp add: providers_of_def outline_defs map_filter_append map_filter_cred
      List.map_filter_simps insert_commute)

lemma embed_many_outline: "providers_of embed_many_on (outline w) = {OpenAI, HuggingFace}"
  by (simp add: providers_of_def outline_defs map_filter_append map_filter_cred
      List.map_filter_simps insert_commute)

lemma yaml_listing_outline:
  "list_all from_yaml_ok (outline w)" "list_all listing_ok (outline w)"
  "list_ex is_from_yaml (outline w)" "list_ex is_listing (outline w)"
  "has_before is_from_yaml uses_index (outline w)"
  by (simp_all add: outline_defs list_all_cred list_ex_append_iff list_ex_cred has_before_def led_cred)

lemma buffer_outline: "list_all buffer_ok (outline w)"
  by (simp add: buffer_ok_def outline_defs list_all_cred)

lemma query_outline: "list_all query_fields_ok (outline w)" "list_ex is_new_query (outline w)"
  "list_ex is_load (outline w)"
  by (simp_all add: outline_defs list_all_cred list_ex_append_iff list_ex_cred)

lemma index_ops_outline:
  "list_ex is_create (outline w)" "list_ex is_load (outline w)" "list_ex is_query (outline w)"
  "is_delete (last (outline w))" "outline w \<noteq> []"
  by (simp_all add: outline_defs list_ex_append_iff list_ex_cred)

text \<open>  Exact and answered lists of events, and the statements that add them.\<close>

lemma answered_single: "answered w [ev] \<Longrightarrow> answered w (ev # tr) = answered w tr"
  by (auto split: option.splits)

lemma answered_append: "answered w a \<Longrightarrow> answered w b \<Longrightarrow> answered w (a @ b)"
  by (induction a) (auto simp: prompt_next_append split: option.splits)

lemma fine_Nil [simp]: "fine w []"
  by (simp add: fine_def)

lemma fine_append: "fine w a \<Longrightarrow> fine w b \<Longrightarrow> fine w (a @ b)"
  by (simp add: fine_def answered_append)

lemma fine_Cons: "exact w ev \<Longrightarrow> answered w [ev] \<Longrightarrow> fine w es \<Longrightarrow> fine w (ev # es)"
  using answered_single [of w ev es] by (simp add: fine_def)

lemma added_same [simp]: "added s s = []"
  by (simp add: added_def)

lemma added_append: "trace s' = trace s @ es \<Longrightarrow> added s s' = es"
  by (simp add: added_def)

lemma eff_added: "eff w s s' seg \<Longrightarrow> trace s' = trace s @ added s s'"
  by (auto simp: eff_def added_def prefix_def)

lemma eff_addedE:
  assumes "eff w s s' seg"
  obtains es where "trace s' = trace s @ es" "added s s' = es"
  using eff_added [OF assms] by blast

lemma know_environ [simp]: "know w n (s\<lparr>environ := e\<rparr>) = know w n s"
  by (simp add: know_def)

lemma know_log [simp]: "know w n (log ev s) = know w n s"
  by (simp add: know_def log_def)

lemma know_out [simp]: "n \<le> 8 \<Longrightarrow> know w n (out x s) = know w n s"
  by (simp add: know_def out_def)

lemma know_upd [simp]:
  "know w n (s\<lparr>api_key := v\<rparr>) = know w n s"
  "know w n (s\<lparr>api_version := v\<rparr>) = know w n s"
  "know w n (s\<lparr>azure_endpoint := v\<rparr>) = know w n s"
  "know w n (s\<lparr>deployment_name := v\<rparr>) = know w n s"
  "know w n (s\<lparr>oai := c\<rparr>) = know w n s"
  "know w n (s\<lparr>az_oai := c\<rparr>) = know w n s"
  "know w n (s\<lparr>vtx := c\<rparr>) = know w n s"
  "know w n (s\<lparr>co := c\<rparr>) = know w n s"
  "know w n (s\<lparr>test := e\<rparr>) = know w n s"
  by (simp_all add: know_def)

lemma xeff_same:
  "good w s' \<Longrightarrow> trace s' = trace s \<Longrightarrow> (status s' = Running \<Longrightarrow> know w m s') \<Longrightarrow>
   xeff w m s s' []"
  by (simp add: xeff_def eff_same added_def)

lemma xeff_log:
  assumes "xeff w m (log ev s) s' seg" "exact w ev" "answered w [ev]"
  shows "xeff w m s s' (erase ev # seg)"
proof -
  from assms(1) have e: "eff w (log ev s) s' seg" by (simp add: xeff_def)
  from e obtain r where r: "trace s' = trace (log ev s) @ r" "added (log ev s) s' = r"
    by (rule eff_addedE)
  then have "added s s' = ev # r" by (simp add: added_def)
  moreover have "fine w (ev # r)"
    using assms r by (intro fine_Cons) (simp_all add: xeff_def)
  ultimately show ?thesis using assms(1) eff_log [OF e] by (simp add: xeff_def)
qed

lemma xeff_abort:
  "good w s' \<Longrightarrow> trace s' = trace s \<Longrightarrow> status s' \<noteq> Running \<Longrightarrow> xeff w m s s' seg"
  by (simp add: xeff_def eff_abort added_def)

lemma xeff_call:
  assumes "good w s" "erase ev = e" "exact w ev" "answered w [ev]"
    and "fails w ev = None \<Longrightarrow> xeff w m (log ev s) (k (log ev s)) seg"
  shows "xeff w m s (call w ev k s) (e # seg)"
proof (cases "fails w ev")
  case None
  with assms(5) have "xeff w m (log ev s) (call w ev k s) seg" by (simp add: call_def)
  from xeff_log [OF this assms(3,4)] assms(2) show ?thesis by simp
next
  case (Some x)
  have "xeff w m (log ev s) (raise x (log ev s)) seg"
    using assms(1) by (intro xeff_abort) simp_all
  with Some have "xeff w m (log ev s) (call w ev k s) seg" by (simp add: call_def)
  from xeff_log [OF this assms(3,4)] assms(2) show ?thesis by simp
qed

lemma xeff_log': "erase ev = e \<Longrightarrow> exact w ev \<Longrightarrow> answered w [ev] \<Longrightarrow> good w s \<Longrightarrow>
   (status s = Running \<Longrightarrow> know w m s) \<Longrightarrow> xeff w m s (log ev s) [e]"
proof -
  assume a: "erase ev = e" "exact w ev" "answered w [ev]" "good w s"
    "status s = Running \<Longrightarrow> know w m s"
  have "xeff w m (log ev s) (log ev s) []" using a(4,5) by (intro xeff_same) simp_all
  from xeff_log [OF this a(2,3)] a(1) show ?thesis by simp
qed

lemma xeff_cred:
  assumes "good w s" and "n \<noteq> ''TOKENIZERS_PARALLELISM''"
    and k: "\<And>v s1. s1 = log (EnvGet n None) s \<or> s1 = log (Getpass p) (log (EnvGet n None) s) \<Longrightarrow>
               xeff w m s1 (k v s1) seg"
  shows "xeff w m s (env_or_getpass w n p k s) (cred w n p @ seg)"
proof -
  let ?s1 = "log (EnvGet n None) s"
  let ?s2 = "log (Getpass p) ?s1"
  have g1: "good w ?s1" using assms(1) by simp
  have e: "environ ?s1 n = env0 w n" using assms(1,2) by (simp add: good_def)
  show ?thesis
  proof (cases "needs_prompt w n")
    case True
    have eq: "env_or_getpass w n p k s = call w (Getpass p) (k (typed w p)) ?s1"
      using True e by (auto simp: env_or_getpass_def Let_def needs_prompt_def)
    have c: "xeff w m ?s1 (call w (Getpass p) (k (typed w p)) ?s1) (Getpass p # seg)"
      using g1 k [of ?s2] by (intro xeff_call) simp_all
    then have e1: "eff w ?s1 (env_or_getpass w n p k s) (Getpass p # seg)"
      by (simp add: xeff_def eq)
    from e1 obtain r where r: "trace (env_or_getpass w n p k s) = trace ?s1 @ r"
      "added ?s1 (env_or_getpass w n p k s) = r" by (rule eff_addedE)
    have p1: "prefix (map erase r) (Getpass p # seg)"
      using e1 r by (simp add: eff_def fresh_def added_def)
    have r1: "r \<noteq> []"
    proof
      assume "r = []"
      then have "trace (call w (Getpass p) (k (typed w p)) ?s1) = trace ?s1" using r eq by simp
      moreover have "prefix (trace ?s2) (trace (call w (Getpass p) (k (typed w p)) ?s1))"
      proof (cases "fails w (Getpass p)")
        case None
        have "eff w ?s2 (k (typed w p) ?s2) seg" using k [of ?s2] by (simp add: xeff_def)
        with None show ?thesis by (simp add: call_def eff_def)
      next
        case (Some x)
        then show ?thesis by (simp add: call_def)
      qed
      ultimately show False by (simp add: prefix_def)
    qed
    have pn: "prompt_next r"
    proof (cases r)
      case Nil
      with r1 show ?thesis by simp
    next
      case (Cons e0 r')
      with p1 have "erase e0 = Getpass p" by simp
      then have "is_getpass (erase e0)" by simp
      then show ?thesis using Cons by simp
    qed
    have fr: "fine w r" using c r by (simp add: xeff_def eq)
    have "added s (env_or_getpass w n p k s) = EnvGet n None # r"
      using r by (simp add: added_def)
    moreover have "fine w (EnvGet n None # r)" using fr pn by (simp add: fine_def)
    moreover have "eff w s (env_or_getpass w n p k s) (erase (EnvGet n None) # Getpass p # seg)"
      using e1 by (rule eff_log)
    ultimately show ?thesis using c True by (simp add: xeff_def eq cred_def)
  next
    case False
    then obtain v where v: "env0 w n = Some v" "v \<noteq> []"
      by (auto simp: needs_prompt_def)
    have eq: "env_or_getpass w n p k s = k v ?s1"
      using v e by (simp add: env_or_getpass_def Let_def)
    have "xeff w m ?s1 (k v ?s1) seg" using k [of ?s1] by simp
    then have "xeff w m s (k v ?s1) (erase (EnvGet n None) # seg)"
      using False by (intro xeff_log) simp_all
    then show ?thesis using False by (simp add: eq cred_def)
  qed
qed

lemma xeff_cred0:
  assumes "good w s" and "n \<noteq> ''TOKENIZERS_PARALLELISM''"
    and "\<And>v s1. s1 = log (EnvGet n None) s \<or> s1 = log (Getpass p) (log (EnvGet n None) s) \<Longrightarrow>
               xeff w m s1 (k v s1) []"
  shows "xeff w m s (env_or_getpass w n p k s) (cred w n p)"
  using xeff_cred [OF assms(1,2), of p m k "[]"] assms(3) by simp

lemma xeff_env_get_default:
  assumes "good w s" and "\<And>v. xeff w m (log (EnvGet n (Some d)) s) (k v (log (EnvGet n (Some d)) s)) seg"
  shows "xeff w m s (env_get_default n d k s) (EnvGet n (Some d) # seg)"
proof -
  let ?s1 = "log (EnvGet n (Some d)) s"
  have "xeff w m ?s1 (env_get_default n d k s) seg"
    using assms(2) by (auto simp: env_get_default_def Let_def split: option.splits)
  then have "xeff w m s (env_get_default n d k s) (erase (EnvGet n (Some d)) # seg)"
    by (intro xeff_log) simp_all
  then show ?thesis by simp
qed

lemma xeff_env_set:
  assumes "good w s" "status s = Running \<Longrightarrow> know w m s"
  shows "xeff w m s (env_set ''TOKENIZERS_PARALLELISM'' v s) [EnvSet ''TOKENIZERS_PARALLELISM'' v]"
proof -
  let ?s1 = "log (EnvSet ''TOKENIZERS_PARALLELISM'' v) s"
  have g: "good w (env_set ''TOKENIZERS_PARALLELISM'' v s)"
    using assms(1) by (simp add: env_set_def good_def log_def)
  have "xeff w m ?s1 (env_set ''TOKENIZERS_PARALLELISM'' v s) []"
    using g assms(2) by (intro xeff_same) (simp_all add: env_set_def)
  then have "xeff w m s (env_set ''TOKENIZERS_PARALLELISM'' v s) [erase (EnvSet ''TOKENIZERS_PARALLELISM'' v)]"
    by (intro xeff_log) simp_all
  then show ?thesis by simp
qed

lemma xeff_trans:
  assumes a: "xeff w m s s1 a" and b: "status s1 = Running \<Longrightarrow> xeff w m' s1 s2 b"
    and stuck: "status s1 \<noteq> Running \<Longrightarrow> s2 = s1"
  shows "xeff w m' s s2 (a @ b)"
proof (cases "status s1 = Running")
  case True
  from a have ea: "eff w s s1 a" by (simp add: xeff_def)
  from b True have eb: "eff w s1 s2 b" and xb: "xeff w m' s1 s2 b" by (simp_all add: xeff_def)
  have e: "eff w s s2 (a @ b)" using ea eb stuck by (rule eff_trans)
  from ea obtain r1 where r1: "trace s1 = trace s @ r1" "added s s1 = r1" by (rule eff_addedE)
  from eb obtain r2 where r2: "trace s2 = trace s1 @ r2" "added s1 s2 = r2" by (rule eff_addedE)
  have "added s s2 = r1 @ r2" using r1 r2 by (simp add: added_def)
  moreover have "fine w (r1 @ r2)"
    using a xb r1 r2 by (intro fine_append) (simp_all add: xeff_def)
  ultimately show ?thesis using e xb by (simp add: xeff_def)
next
  case False
  then have s2: "s2 = s1" by (rule stuck)
  from a have ea: "eff w s s1 a" by (simp add: xeff_def)
  have "eff w s1 s1 b" using ea False by (intro eff_abort) (simp_all add: eff_def)
  with ea have "eff w s s1 (a @ b)" by (rule eff_trans) simp
  with a False s2 show ?thesis by (simp add: xeff_def)
qed

lemma chain_run:
  assumes "chain w n fs ms segs" and "good w s" and "status s = Running \<Longrightarrow> know w n s"
  shows "xeff w (last (n # ms)) s (run fs s) (concat segs)"
  using assms
proof (induction w n fs ms segs arbitrary: s rule: chain.induct)
  case (1 w n)
  then show ?case by (simp add: xeff_same)
next
  case (2 w n f fs m ms seg segs)
  from "2.prems"(1) have x: "xstmt w n f m seg" and c: "chain w m fs ms segs" by simp_all
  have 1: "xeff w m s (step f s) seg"
  proof (cases "status s = Running")
    case True
    with x "2.prems"(2,3) show ?thesis by (simp add: xstmt_def step_def)
  next
    case False
    with "2.prems"(2) show ?thesis by (simp add: step_def xeff_abort)
  qed
  then have g: "good w (step f s)" and k: "status (step f s) = Running \<Longrightarrow> know w m (step f s)"
    by (simp_all add: xeff_def eff_def)
  have 2: "xeff w (last (m # ms)) (step f s) (run fs (step f s)) (concat segs)"
    using c g k by (rule "2.IH")
  have "xeff w (last (m # ms)) s (run fs (step f s)) (seg @ concat segs)"
    using 1 2 by (rule xeff_trans) (simp add: run_stuck)
  then show ?case by simp
qed simp_all

lemma chain_append:
  "chain w n fs ms segs \<Longrightarrow> chain w (last (n # ms)) gs ks segs' \<Longrightarrow>
   chain w n (fs @ gs) (ms @ ks) (segs @ segs')"
  by (induction w n fs ms segs rule: chain.induct) simp_all

lemmas xeff_intros = xeff_call xeff_cred0 xeff_cred xeff_env_get_default xeff_env_set xeff_log' xeff_same

text \<open>  The result loop completes only when every document has both keys, and then prints one
  line per document, in order; it changes nothing but the output and the status.\<close>

lemma print_docs_complete:
  "status (print_docs ds s) = Running \<Longrightarrow>
   (\<forall>d\<in>set ds. map_of d ''text'' \<noteq> None \<and> map_of d ''vector_distance'' \<noteq> None) \<and>
   stdout (print_docs ds s) = stdout s @ map doc_line ds"
proof (induction ds arbitrary: s)
  case Nil
  then show ?case by simp
next
  case (Cons d ds)
  from Cons.prems obtain t v where tv: "map_of d ''text'' = Some t" "map_of d ''vector_distance'' = Some v"
    by (auto split: option.splits)
  with Cons.prems have "status (print_docs ds (out (Print [t, v]) s)) = Running" by simp
  from Cons.IH [OF this] tv show ?case by (simp add: doc_line_def out_def)
qed

lemma print_docs_upd:
  "print_docs ds s = s\<lparr>stdout := stdout (print_docs ds s), status := status (print_docs ds s)\<rparr>"
proof (induction ds arbitrary: s)
  case Nil
  then show ?case by simp
next
  case (Cons d ds)
  show ?case
  proof (cases "map_of d ''text''")
    case None
    then show ?thesis by (simp add: raise_def)
  next
    case (Some t)
    show ?thesis
    proof (cases "map_of d ''vector_distance''")
      case None
      with Some show ?thesis by (simp add: raise_def)
    next
      case (Some v)
      have "print_docs ds (out (Print [t, v]) s) =
        (out (Print [t, v]) s)\<lparr>stdout := stdout (print_docs ds (out (Print [t, v]) s)),
           status := status (print_docs ds (out (Print [t, v]) s))\<rparr>"
        by (rule Cons.IH)
      also have "\<dots> = s\<lparr>stdout := stdout (print_docs ds (out (Print [t, v]) s)),
           status := status (print_docs ds (out (Print [t, v]) s))\<rparr>"
        by (simp add: out_def)
      finally show ?thesis using Some \<open>map_of d ''text'' = Some t\<close> by simp
    qed
  qed
qed

lemma know_stdout_status: "n \<le> 8 \<Longrightarrow> know w n (s\<lparr>stdout := x, status := y\<rparr>) = know w n s"
  by (simp add: know_def)

lemma results_print_docs [simp]: "results (print_docs ds s) = results s"
proof -
  have "results (s\<lparr>stdout := stdout (print_docs ds s), status := status (print_docs ds s)\<rparr>)
    = results s" by simp
  then show ?thesis using print_docs_upd [of ds s] by simp
qed

lemma know_print_docs:
  assumes "know w 8 s" "status (print_docs (results s) s) = Running"
  shows "know w 9 (print_docs (results s) s)"
proof -
  have "know w 8 (s\<lparr>stdout := stdout (print_docs (results s) s),
      status := status (print_docs (results s) s)\<rparr>)"
    using assms(1) by (simp add: know_stdout_status)
  moreover have "know w 8 (print_docs (results s) s) =
    know w 8 (s\<lparr>stdout := stdout (print_docs (results s) s),
      status := status (print_docs (results s) s)\<rparr>)"
    using print_docs_upd [of "results s" s] by (rule arg_cong)
  ultimately have 8: "know w 8 (print_docs (results s) s)" by simp
  from print_docs_complete [OF assms(2)]
  have "(\<forall>d\<in>set (results s). map_of d ''text'' \<noteq> None)"
    "stdout (print_docs (results s) s) = stdout s @ map doc_line (results s)" by simp_all
  with 8 show ?thesis by (auto simp: know_def)
qed

lemma records_eq: "make_records three_sentences (hf_buffers w) = loaded_records w"
  by (simp add: make_records_def hf_buffers_def loaded_records_def zip_map2 case_prod_unfold)

lemmas known = know_def returned_def hf_client_def hf_buffers_def hf_batch_call_def
  query_embedding_call_def notebook_query_def query_call_def

text \<open>  Every statement of every cell adds exact and answered events and reaches its stage.\<close>

lemma x1: "chain w 0 (cell1 w) [0] (segs1 w)"
  by (auto simp: cell1_def segs1_def xstmt_def Let_def good_cls erased shown from_yaml_schema
      know_print_docs intro!: xeff_intros split: list.splits)
    ((auto simp: known log_def raise_def out_def records_eq [symmetric])?)

lemma x4: "chain w 0 (cell4 w) [0, 0] (segs4 w)"
  by (auto simp: cell4_def segs4_def xstmt_def Let_def good_cls erased shown from_yaml_schema
      know_print_docs intro!: xeff_intros split: list.splits)
    ((auto simp: known log_def raise_def out_def records_eq [symmetric])?)

lemma x5: "chain w 0 (cell5 w) [0, 0, 0, 0, 0] (segs5 w)"
  by (auto simp: cell5_def segs5_def xstmt_def Let_def good_cls erased shown from_yaml_schema
      know_print_docs intro!: xeff_intros split: list.splits)
    ((auto simp: known log_def raise_def out_def records_eq [symmetric])?)

lemma x6: "chain w 0 (cell6 w) [1, 1, 1] (segs6 w)"
  by (auto simp: cell6_def segs6_def xstmt_def Let_def good_cls erased shown from_yaml_schema
      know_print_docs intro!: xeff_intros split: list.splits)
    ((auto simp: known log_def raise_def out_def records_eq [symmetric])?)

lemma x7: "chain w 1 (cell7 w) [1, 1] (segs7 w)"
  by (auto simp: cell7_def segs7_def xstmt_def Let_def good_cls erased shown from_yaml_schema
      know_print_docs intro!: xeff_intros split: list.splits)
    ((auto simp: known log_def raise_def out_def records_eq [symmetric])?)

lemma x9: "chain w 1 (cell9 w) [1, 1, 1, 1] (segs9 w)"
  by (auto simp: cell9_def segs9_def xstmt_def Let_def good_cls erased shown from_yaml_schema
      know_print_docs intro!: xeff_intros split: list.splits)
    ((auto simp: known log_def raise_def out_def records_eq [symmetric])?)

lemma x10: "chain w 1 (cell10 w) [1, 1, 1, 1, 1] (segs10 w)"
  by (auto simp: cell10_def segs10_def xstmt_def Let_def good_cls erased shown from_yaml_schema
      know_print_docs intro!: xeff_intros split: list.splits)
    ((auto simp: known log_def raise_def out_def records_eq [symmetric])?)

lemma x11: "chain w 1 (cell11 w) [1, 1, 1] (segs11 w)"
  by (auto simp: cell11_def segs11_def xstmt_def Let_def good_cls erased shown from_yaml_schema
      know_print_docs intro!: xeff_intros split: list.splits)
    ((auto simp: known log_def raise_def out_def records_eq [symmetric])?)

lemma x13: "chain w 1 (cell13 w) [1, 1, 2, 2, 2] (segs13 w)"
  by (auto simp: cell13_def segs13_def xstmt_def Let_def good_cls erased shown from_yaml_schema
      know_print_docs intro!: xeff_intros split: list.splits)
    ((auto simp: known log_def raise_def out_def records_eq [symmetric])?)

lemma x14: "chain w 2 (cell14 w) [3] (segs14 w)"
  by (auto simp: cell14_def segs14_def xstmt_def Let_def good_cls erased shown from_yaml_schema
      know_print_docs intro!: xeff_intros split: list.splits)
    ((auto simp: known log_def raise_def out_def records_eq [symmetric])?)

lemma x16: "chain w 3 (cell16 w) [3, 3, 3, 3] (segs16 w)"
  by (auto simp: cell16_def segs16_def xstmt_def Let_def good_cls erased shown from_yaml_schema
      know_print_docs intro!: xeff_intros split: list.splits)
    ((auto simp: known log_def raise_def out_def records_eq [symmetric])?)

lemma x18: "chain w 3 (cell18 w) [3, 3] (segs18 w)"
  by (auto simp: cell18_def segs18_def xstmt_def Let_def good_cls erased shown from_yaml_schema
      know_print_docs intro!: xeff_intros split: list.splits)
    ((auto simp: known log_def raise_def out_def records_eq [symmetric])?)

lemma x20: "chain w 3 (cell20 w) [3, 3, 3, 3, 3, 3, 3, 3] (segs20 w)"
  by (auto simp: cell20_def segs20_def xstmt_def Let_def good_cls erased shown from_yaml_schema
      know_print_docs intro!: xeff_intros split: list.splits)
    ((auto simp: known log_def raise_def out_def records_eq [symmetric])?)

lemma x23: "chain w 3 (cell23 w) [3, 4, 4, 4] (segs23 w)"
  by (auto simp: cell23_def segs23_def xstmt_def Let_def good_cls erased shown from_yaml_schema
      know_print_docs intro!: xeff_intros split: list.splits)
    ((auto simp: known log_def raise_def out_def records_eq [symmetric])?)

lemma x24: "chain w 4 (cell24 w) [4] (segs24 w)"
  by (auto simp: cell24_def segs24_def xstmt_def Let_def good_cls erased shown from_yaml_schema
      know_print_docs intro!: xeff_intros split: list.splits)
    ((auto simp: known log_def raise_def out_def records_eq [symmetric])?)

lemma x25: "chain w 4 (cell25 w) [5, 5] (segs25 w)"
  by (auto simp: cell25_def segs25_def xstmt_def Let_def good_cls erased shown from_yaml_schema
      know_print_docs intro!: xeff_intros split: list.splits)
    ((auto simp: known log_def raise_def out_def records_eq [symmetric])?)

lemma x26: "chain w 5 (cell26 w) [5, 6, 7, 8, 9] (segs26 w)"
  by (auto simp: cell26_def segs26_def xstmt_def Let_def good_cls erased shown from_yaml_schema
      know_print_docs intro!: xeff_intros split: list.splits)
    ((auto simp: known log_def raise_def out_def records_eq [symmetric])?)

lemma x27: "chain w 9 (cell27 w) [9] (segs27 w)"
  by (auto simp: cell27_def segs27_def xstmt_def Let_def good_cls erased shown from_yaml_schema
      know_print_docs intro!: xeff_intros split: list.splits)
    ((auto simp: known log_def raise_def out_def records_eq [symmetric])?)

lemma chain_link:
  assumes "chain w n fs ms segs" "chain w m gs ks segs'" "last (n # ms) = m"
  shows "chain w n (fs @ gs) (ms @ ks) (segs @ segs')"
  using assms chain_append by blast

lemma from26:
  "chain w 5 (cell26 w @ cell27 w)
     ([5, 6, 7, 8, 9] @ [9])
     (segs26 w @ segs27 w)"
  by (rule chain_link [OF x26 x27]) simp

lemma from25:
  "chain w 4 (cell25 w @ cell26 w @ cell27 w)
     ([5, 5] @ [5, 6, 7, 8, 9] @ [9])
     (segs25 w @ segs26 w @ segs27 w)"
  by (rule chain_link [OF x25 from26]) simp

lemma from24:
  "chain w 4 (cell24 w @ cell25 w @ cell26 w @ cell27 w)
     ([4] @ [5, 5] @ [5, 6, 7, 8, 9] @ [9])
     (segs24 w @ segs25 w @ segs26 w @ segs27 w)"
  by (rule chain_link [OF x24 from25]) simp

lemma from23:
  "chain w 3 (cell23 w @ cell24 w @ cell25 w @ cell26 w @ cell27 w)
     ([3, 4, 4, 4] @ [4] @ [5, 5] @ [5, 6, 7, 8, 9] @ [9])
     (segs23 w @ segs24 w @ segs25 w @ segs26 w @ segs27 w)"
  by (rule chain_link [OF x23 from24]) simp

lemma from20:
  "chain w 3 (cell20 w @ cell23 w @ cell24 w @ cell25 w @ cell26 w @ cell27 w)
     ([3, 3, 3, 3, 3, 3, 3, 3] @ [3, 4, 4, 4] @ [4] @ [5, 5] @ [5, 6, 7, 8, 9] @ [9])
     (segs20 w @ segs23 w @ segs24 w @ segs25 w @ segs26 w @ segs27 w)"
  by (rule chain_link [OF x20 from23]) simp

lemma from18:
  "chain w 3 (cell18 w @ cell20 w @ cell23 w @ cell24 w @ cell25 w @ cell26 w @ cell27 w)
     ([3, 3] @ [3, 3, 3, 3, 3, 3, 3, 3] @ [3, 4, 4, 4] @ [4] @ [5, 5] @ [5, 6, 7, 8, 9] @ [9])
     (segs18 w @ segs20 w @ segs23 w @ segs24 w @ segs25 w @ segs26 w @ segs27 w)"
  by (rule chain_link [OF x18 from20]) simp

lemma from16:
  "chain w 3 (cell16 w @ cell18 w @ cell20 w @ cell23 w @ cell24 w @ cell25 w @ cell26 w @ cell27 w)
     ([3, 3, 3, 3] @ [3, 3] @ [3, 3, 3, 3, 3, 3, 3, 3] @ [3, 4, 4, 4] @ [4] @ [5, 5] @ [5, 6, 7, 8, 9] @ [9])
     (segs16 w @ segs18 w @ segs20 w @ segs23 w @ segs24 w @ segs25 w @ segs26 w @ segs27 w)"
  by (rule chain_link [OF x16 from18]) simp

lemma from14:
  "chain w 2 (cell14 w @ cell16 w @ cell18 w @ cell20 w @ cell23 w @ cell24 w @ cell25 w @ cell26 w @ cell27 w)
     ([3] @ [3, 3, 3, 3] @ [3, 3] @ [3, 3, 3, 3, 3, 3, 3, 3] @ [3, 4, 4, 4] @ [4] @ [5, 5] @ [5, 6, 7, 8, 9] @ [9])
     (segs14 w @ segs16 w @ segs18 w @ segs20 w @ segs23 w @ segs24 w @ segs25 w @ segs26 w @ segs27 w)"
  by (rule chain_link [OF x14 from16]) simp

lemma from13:
  "chain w 1 (cell13 w @ cell14 w @ cell16 w @ cell18 w @ cell20 w @ cell23 w @ cell24 w @ cell25 w @ cell26 w @ cell27 w)
     ([1, 1, 2, 2, 2] @ [3] @ [3, 3, 3, 3] @ [3, 3] @ [3, 3, 3, 3, 3, 3, 3, 3] @ [3, 4, 4, 4] @ [4] @ [5, 5] @ [5, 6, 7, 8, 9] @ [9])
     (segs13 w @ segs14 w @ segs16 w @ segs18 w @ segs20 w @ segs23 w @ segs24 w @ segs25 w @ segs26 w @ segs27 w)"
  by (rule chain_link [OF x13 from14]) simp

lemma from11:
  "chain w 1 (cell11 w @ cell13 w @ cell14 w @ cell16 w @ cell18 w @ cell20 w @ cell23 w @ cell24 w @ cell25 w @ cell26 w @ cell27 w)
     ([1, 1, 1] @ [1, 1, 2, 2, 2] @ [3] @ [3, 3, 3, 3] @ [3, 3] @ [3, 3, 3, 3, 3, 3, 3, 3] @ [3, 4, 4, 4] @ [4] @ [5, 5] @ [5, 6, 7, 8, 9] @ [9])
     (segs11 w @ segs13 w @ segs14 w @ segs16 w @ segs18 w @ segs20 w @ segs23 w @ segs24 w @ segs25 w @ segs26 w @ segs27 w)"
  by (rule chain_link [OF x11 from13]) simp

lemma from10:
  "chain w 1 (cell10 w @ cell11 w @ cell13 w @ cell14 w @ cell16 w @ cell18 w @ cell20 w @ cell23 w @ cell24 w @ cell25 w @ cell26 w @ cell27 w)
     ([1, 1, 1, 1, 1] @ [1, 1, 1] @ [1, 1, 2, 2, 2] @ [3] @ [3, 3, 3, 3] @ [3, 3] @ [3, 3, 3, 3, 3, 3, 3, 3] @ [3, 4, 4, 4] @ [4] @ [5, 5] @ [5, 6, 7, 8, 9] @ [9])
     (segs10 w @ segs11 w @ segs13 w @ segs14 w @ segs16 w @ segs18 w @ segs20 w @ segs23 w @ segs24 w @ segs25 w @ segs26 w @ segs27 w)"
  by (rule chain_link [OF x10 from11]) simp

lemma from9:
  "chain w 1 (cell9 w @ cell10 w @ cell11 w @ cell13 w @ cell14 w @ cell16 w @ cell18 w @ cell20 w @ cell23 w @ cell24 w @ cell25 w @ cell26 w @ cell27 w)
     ([1, 1, 1, 1] @ [1, 1, 1, 1, 1] @ [1, 1, 1] @ [1, 1, 2, 2, 2] @ [3] @ [3, 3, 3, 3] @ [3, 3] @ [3, 3, 3, 3, 3, 3, 3, 3] @ [3, 4, 4, 4] @ [4] @ [5, 5] @ [5, 6, 7, 8, 9] @ [9])
     (segs9 w @ segs10 w @ segs11 w @ segs13 w @ segs14 w @ segs16 w @ segs18 w @ segs20 w @ segs23 w @ segs24 w @ segs25 w @ segs26 w @ segs27 w)"
  by (rule chain_link [OF x9 from10]) simp

lemma from7:
  "chain w 1 (cell7 w @ cell9 w @ cell10 w @ cell11 w @ cell13 w @ cell14 w @ cell16 w @ cell18 w @ cell20 w @ cell23 w @ cell24 w @ cell25 w @ cell26 w @ cell27 w)
     ([1, 1] @ [1, 1, 1, 1] @ [1, 1, 1, 1, 1] @ [1, 1, 1] @ [1, 1, 2, 2, 2] @ [3] @ [3, 3, 3, 3] @ [3, 3] @ [3, 3, 3, 3, 3, 3, 3, 3] @ [3, 4, 4, 4] @ [4] @ [5, 5] @ [5, 6, 7, 8, 9] @ [9])
     (segs7 w @ segs9 w @ segs10 w @ segs11 w @ segs13 w @ segs14 w @ segs16 w @ segs18 w @ segs20 w @ segs23 w @ segs24 w @ segs25 w @ segs26 w @ segs27 w)"
  by (rule chain_link [OF x7 from9]) simp

lemma from6:
  "chain w 0 (cell6 w @ cell7 w @ cell9 w @ cell10 w @ cell11 w @ cell13 w @ cell14 w @ cell16 w @ cell18 w @ cell20 w @ cell23 w @ cell24 w @ cell25 w @ cell26 w @ cell27 w)
     ([1, 1, 1] @ [1, 1] @ [1, 1, 1, 1] @ [1, 1, 1, 1, 1] @ [1, 1, 1] @ [1, 1, 2, 2, 2] @ [3] @ [3, 3, 3, 3] @ [3, 3] @ [3, 3, 3, 3, 3, 3, 3, 3] @ [3, 4, 4, 4] @ [4] @ [5, 5] @ [5, 6, 7, 8, 9] @ [9])
     (segs6 w @ segs7 w @ segs9 w @ segs10 w @ segs11 w @ segs13 w @ segs14 w @ segs16 w @ segs18 w @ segs20 w @ segs23 w @ segs24 w @ segs25 w @ segs26 w @ segs27 w)"
  by (rule chain_link [OF x6 from7]) simp

lemma from5:
  "chain w 0 (cell5 w @ cell6 w @ cell7 w @ cell9 w @ cell10 w @ cell11 w @ cell13 w @ cell14 w @ cell16 w @ cell18 w @ cell20 w @ cell23 w @ cell24 w @ cell25 w @ cell26 w @ cell27 w)
     ([0, 0, 0, 0, 0] @ [1, 1, 1] @ [1, 1] @ [1, 1, 1, 1] @ [1, 1, 1, 1, 1] @ [1, 1, 1] @ [1, 1, 2, 2, 2] @ [3] @ [3, 3, 3, 3] @ [3, 3] @ [3, 3, 3, 3, 3, 3, 3, 3] @ [3, 4, 4, 4] @ [4] @ [5, 5] @ [5, 6, 7, 8, 9] @ [9])
     (segs5 w @ segs6 w @ segs7 w @ segs9 w @ segs10 w @ segs11 w @ segs13 w @ segs14 w @ segs16 w @ segs18 w @ segs20 w @ segs23 w @ segs24 w @ segs25 w @ segs26 w @ segs27 w)"
  by (rule chain_link [OF x5 from6]) simp

lemma from4:
  "chain w 0 (cell4 w @ cell5 w @ cell6 w @ cell7 w @ cell9 w @ cell10 w @ cell11 w @ cell13 w @ cell14 w @ cell16 w @ cell18 w @ cell20 w @ cell23 w @ cell24 w @ cell25 w @ cell26 w @ cell27 w)
     ([0, 0] @ [0, 0, 0, 0, 0] @ [1, 1, 1] @ [1, 1] @ [1, 1, 1, 1] @ [1, 1, 1, 1, 1] @ [1, 1, 1] @ [1, 1, 2, 2, 2] @ [3] @ [3, 3, 3, 3] @ [3, 3] @ [3, 3, 3, 3, 3, 3, 3, 3] @ [3, 4, 4, 4] @ [4] @ [5, 5] @ [5, 6, 7, 8, 9] @ [9])
     (segs4 w @ segs5 w @ segs6 w @ segs7 w @ segs9 w @ segs10 w @ segs11 w @ segs13 w @ segs14 w @ segs16 w @ segs18 w @ segs20 w @ segs23 w @ segs24 w @ segs25 w @ segs26 w @ segs27 w)"
  by (rule chain_link [OF x4 from5]) simp

lemma from1:
  "chain w 0 (cell1 w @ cell4 w @ cell5 w @ cell6 w @ cell7 w @ cell9 w @ cell10 w @ cell11 w @ cell13 w @ cell14 w @ cell16 w @ cell18 w @ cell20 w @ cell23 w @ cell24 w @ cell25 w @ cell26 w @ cell27 w)
     ([0] @ [0, 0] @ [0, 0, 0, 0, 0] @ [1, 1, 1] @ [1, 1] @ [1, 1, 1, 1] @ [1, 1, 1, 1, 1] @ [1, 1, 1] @ [1, 1, 2, 2, 2] @ [3] @ [3, 3, 3, 3] @ [3, 3] @ [3, 3, 3, 3, 3, 3, 3, 3] @ [3, 4, 4, 4] @ [4] @ [5, 5] @ [5, 6, 7, 8, 9] @ [9])
     (segs1 w @ segs4 w @ segs5 w @ segs6 w @ segs7 w @ segs9 w @ segs10 w @ segs11 w @ segs13 w @ segs14 w @ segs16 w @ segs18 w @ segs20 w @ segs23 w @ segs24 w @ segs25 w @ segs26 w @ segs27 w)"
  by (rule chain_link [OF x1 from4]) simp

text \<open>  Every event of every run is exact, every lookup is answered, and a run that completes
  ends at the last stage.\<close>

lemma program_chain: "chain w 0 (program w) levels (segments w)"
  unfolding program_def segments_def levels_def by (rule from1)

lemma know_0 [simp]: "know w 0 s"
  by (simp add: know_def)

lemma notebook_xeff: "xeff w 9 (init w) (notebook w) (outline w)"
proof -
  have "xeff w (last (0 # levels)) (init w) (run (program w) (init w)) (concat (segments w))"
    using program_chain good_init by (rule chain_run) simp
  then show ?thesis by (simp add: notebook_def outline_def levels_def)
qed

lemma fine_trace: "fine w (trace (notebook w))"
  using notebook_xeff [of w] by (simp add: xeff_def added_def)

lemma exact_trace: "ev \<in> set (trace (notebook w)) \<Longrightarrow> exact w ev"
  using fine_trace [of w] by (simp add: fine_def list_all_iff)

lemma know_final: "status (notebook w) = Running \<Longrightarrow> know w 9 (notebook w)"
  using notebook_xeff [of w] by (simp add: xeff_def)

lemma has_before_trace:
  assumes "\<And>ev. P (erase ev) = P ev" "\<And>ev. Q (erase ev) = Q ev" "has_before P Q (outline w)"
  shows "has_before P Q (trace (notebook w))"
proof -
  have "has_before P Q (map erase (trace (notebook w)))"
    using trace_outline assms(3) by (rule has_before_prefix)
  then show ?thesis using assms(1,2) by (simp add: has_before_map)
qed

lemma has_beforeD:
  assumes "has_before P Q tr" "ev \<in> set tr" "Q ev"
  shows "\<exists>e\<in>set tr. P e"
proof -
  from assms(2) obtain j where j: "j < length tr" "tr ! j = ev" by (auto simp: in_set_conv_nth)
  with assms(1,3) obtain i where "i < j" "P (tr ! i)" by (auto simp: has_before_iff)
  with j(1) show ?thesis by (auto intro!: bexI [of _ "tr ! i"])
qed

lemma hf_batch_erase [simp]: "hf_batch (erase ev) = hf_batch ev"
  by (cases ev) simp_all

lemma hf_batch_outline:
  "list_ex hf_batch (outline w)" "has_before hf_batch is_load (outline w)"
  by (simp_all add: outline_defs list_ex_cred has_before_def led_cred erased)

lemma hf_batch_exact: "hf_batch ev \<Longrightarrow> exact w ev \<Longrightarrow> ev = hf_batch_call"
  by (cases ev) (simp_all add: hf_batch_call_def)

lemma index_of_exact: "exact w ev \<Longrightarrow> index_of ev = Some i \<Longrightarrow> i = yaml_index"
  by (cases ev) simp_all

lemma uses_index_of: "uses_index ev \<longleftrightarrow> index_of ev \<noteq> None"
  by (cases ev) simp_all

lemma load_after_batch:
  assumes "Load i d \<in> set (trace (notebook w))"
  shows "hf_batch_call \<in> set (trace (notebook w))"
proof -
  have "has_before hf_batch is_load (trace (notebook w))"
    using hf_batch_outline(2) by (intro has_before_trace) simp_all
  from has_beforeD [OF this assms] obtain e where e: "e \<in> set (trace (notebook w))" "hf_batch e"
    by auto
  with exact_trace [OF e(1)] have "e = hf_batch_call" by (simp add: hf_batch_exact)
  with e(1) show ?thesis by simp
qed

lemma completed_events:
  assumes "status (notebook w) = Running"
  shows "hf_batch_call \<in> set (trace (notebook w))"
    "Load yaml_index (loaded_records w) \<in> set (trace (notebook w))"
    "query_embedding_call \<in> set (trace (notebook w))"
    "NewQuery (notebook_query w) \<in> set (trace (notebook w))"
    "query_call w \<in> set (trace (notebook w))"
proof -
  let ?tr = "trace (notebook w)"
  have "list_ex is_load ?tr" using assms index_ops_outline(2) by (intro list_ex_trace) simp_all
  then obtain ev where ev: "ev \<in> set ?tr" "is_load ev" by (auto simp: list_ex_iff)
  from ev(2) obtain i d where "ev = Load i d" by (cases ev) simp_all
  with ev(1) exact_trace [OF ev(1)] show l: "Load yaml_index (loaded_records w) \<in> set ?tr" by simp
  then show "hf_batch_call \<in> set ?tr" by (rule load_after_batch)
  have "list_ex is_query ?tr" using assms index_ops_outline(3) by (intro list_ex_trace) simp_all
  then obtain ev where ev: "ev \<in> set ?tr" "is_query ev" by (auto simp: list_ex_iff)
  from ev(2) obtain i q where "ev = RunQuery i q" by (cases ev) simp_all
  with ev(1) exact_trace [OF ev(1)] show "query_call w \<in> set ?tr" by (simp add: query_call_def)
  have "list_ex is_new_query ?tr" using assms query_outline(2) by (intro list_ex_trace) simp_all
  then obtain ev where ev: "ev \<in> set ?tr" "is_new_query ev" by (auto simp: list_ex_iff)
  from ev(2) obtain q where "ev = NewQuery q" by (cases ev) simp_all
  with ev(1) exact_trace [OF ev(1)] show "NewQuery (notebook_query w) \<in> set ?tr" by simp
  have "list_ex is_query_embedding (outline w)" by (simp add: outline_defs list_ex_cred list_ex_append_iff)
  with assms have "list_ex is_query_embedding ?tr" by (intro list_ex_trace) simp_all
  then obtain ev where ev: "ev \<in> set ?tr" "is_query_embedding ev" by (auto simp: list_ex_iff)
  have "list_all (\<lambda>e. is_query_embedding e \<longrightarrow> e = CallEmbed hf0 ''That is a happy cat'' None None)
      (outline w)"
    by (simp add: outline_defs list_all_cred)
  moreover have "erase ev \<in> set (outline w)"
    using ev(1) trace_outline_complete [OF assms, symmetric] by simp
  ultimately have "erase ev = CallEmbed hf0 ''That is a happy cat'' None None"
    using ev(2) by (simp add: list_all_iff)
  then obtain c where c: "ev = CallEmbed c ''That is a happy cat'' None None" "cls c = HuggingFace"
    by (cases ev) (simp_all add: hf0_def)
  with exact_trace [OF ev(1)] ev(1) show "query_embedding_call \<in> set ?tr"
    by (simp add: query_embedding_call_def)
qed

text \<open>  The run in the world where no variable is set and nothing raises completes.\<close>

lemma bare_world_completes: "status (notebook bare_world) = Running"
  by code_simp

lemma load_keyed_trace: "list_all load_keyed (trace (notebook w))"
  using sound_notebook [of w] by (simp add: sound_def keys_inv_def)


lemma prompt_next_cred [simp]: "prompt_next (cred w n p @ rest) = False"
  by (simp add: cred_def)







text \<open>  The documents \<open>nearest\<close> returns are at most as many as asked for and come in the
  order of their distance.\<close>

lemma nearest_length: "length (nearest n ds) \<le> n"
  by (simp add: nearest_def)

lemma nearest_ordered:
  assumes "Suc i < length (nearest n ds)"
  shows "\<exists>a b. map_of (nearest n ds ! i) ''vector_distance'' = Some (N a) \<and>
     map_of (nearest n ds ! Suc i) ''vector_distance'' = Some (N b) \<and> a \<le> b"
proof -
  define xs where "xs = take n (sort_key snd ds)"
  have l: "Suc i < length xs" using assms by (simp add: nearest_def xs_def)
  have "sorted (map snd (sort_key snd ds))" by (rule sorted_sort_key)
  then have "sorted (take n (map snd (sort_key snd ds)))" by (rule sorted_wrt_take)
  then have s: "sorted (map snd xs)" by (simp add: xs_def take_map)
  have "map snd xs ! i \<le> map snd xs ! Suc i"
    using s l by (intro sorted_nth_mono) simp_all
  then have le: "snd (xs ! i) \<le> snd (xs ! Suc i)" using l by simp
  have "map_of (nearest n ds ! i) ''vector_distance'' = Some (N (snd (xs ! i)))"
    "map_of (nearest n ds ! Suc i) ''vector_distance'' = Some (N (snd (xs ! Suc i)))"
    using l by (simp_all add: nearest_def xs_def [symmetric] case_prod_unfold)
  with le show ?thesis by blast
qed

lemma loaded_records_shape:
  "\<forall>r\<in>set (loaded_records w). \<exists>t b. r = [(''text'', S t), (''embedding'', E (Buffer b))]"
  by (auto simp: loaded_records_def)

lemma loaded_records_length:
  "length (loaded_records w) = min 3 (length (embed_many_res w hf_batch_call))"
  by (simp add: loaded_records_def three_sentences_def)

lemma final_results:
  assumes "status (notebook w) = Running"
  shows "results (notebook w) = nearest 3 (query_res w (RunQuery yaml_index (notebook_query w)))"
    "\<forall>d\<in>set (results (notebook w)). map_of d ''text'' \<noteq> None"
    "\<exists>pre. stdout (notebook w) = pre @ map doc_line (results (notebook w))"
    "embeddings (notebook w) = hf_buffers w" "index (notebook w) = yaml_index"
proof -
  from know_final [OF assms] have k: "know w 9 (notebook w)" .
  show "results (notebook w) = nearest 3 (query_res w (RunQuery yaml_index (notebook_query w)))"
    using k by (simp add: know_def query_call_def)
  show "\<forall>d\<in>set (results (notebook w)). map_of d ''text'' \<noteq> None"
    using k unfolding know_def by blast
  show "\<exists>pre. stdout (notebook w) = pre @ map doc_line (results (notebook w))"
    using k unfolding know_def by blast
  show "embeddings (notebook w) = hf_buffers w" using k by (simp add: know_def)
  show "index (notebook w) = yaml_index" using k by (simp add: know_def)
qed

lemma bare_world_run:
  "results (notebook bare_world) =
     [[(''vector_distance'', N (1 / 5)), (''text'', S ''That is a happy person'')],
      [(''vector_distance'', N (3 / 10)), (''text'', S ''That is a happy dog'')],
      [(''vector_distance'', N (7 / 10)), (''text'', S ''Today is a sunny day'')]]"
  "loaded_records bare_world =
     [[(''text'', S ''That is a happy dog''), (''embedding'', E (Buffer [1]))],
      [(''text'', S ''That is a happy person''), (''embedding'', E (Buffer [2]))],
      [(''text'', S ''Today is a sunny day''), (''embedding'', E (Buffer [3]))]]"
  by code_simp+

section \<open>The claims\<close>




text \<open>
  Claim C3, as amended. The vectorizers on which \<^verbatim>\<open>aembed_many\<close> is called are OpenAI
  and Azure OpenAI and no other; a run that completes calls it on both. The synchronous
  \<^verbatim>\<open>embed_many\<close> is called on OpenAI and HuggingFace, so OpenAI is the provider shown
  with both the synchronous and the asynchronous batch call.
\<close>

theorem async_batch_providers:
  "providers_of aembed_many_on (trace (notebook w)) \<subseteq> {OpenAI, AzureOpenAI} \<and>
   (status (notebook w) = Running \<longrightarrow>
      providers_of aembed_many_on (trace (notebook w)) = {OpenAI, AzureOpenAI} \<and>
      providers_of embed_many_on (trace (notebook w)) = {OpenAI, HuggingFace})"
proof (intro conjI impI)
  have "providers_of aembed_many_on (map erase (trace (notebook w)))
          \<subseteq> providers_of aembed_many_on (outline w)"
    using trace_outline by (rule providers_of_prefix)
  then show "providers_of aembed_many_on (trace (notebook w)) \<subseteq> {OpenAI, AzureOpenAI}"
    by (simp add: providers_of_erase aembed_outline)
next
  assume r: "status (notebook w) = Running"
  have "providers_of aembed_many_on (map erase (trace (notebook w))) = {OpenAI, AzureOpenAI}"
    using trace_outline_complete [OF r] aembed_outline by simp
  then show "providers_of aembed_many_on (trace (notebook w)) = {OpenAI, AzureOpenAI}"
    by (simp add: providers_of_erase)
  have "providers_of embed_many_on (map erase (trace (notebook w))) = {OpenAI, HuggingFace}"
    using trace_outline_complete [OF r] embed_many_outline by simp
  then show "providers_of embed_many_on (trace (notebook w)) = {OpenAI, HuggingFace}"
    by (simp add: providers_of_erase)
qed

text \<open>
  Claim C3 as stated (exactly one provider is shown using \<^verbatim>\<open>aembed_many\<close>) fails: in the
  run with an empty environment the number of providers it is called on is not one.
\<close>

theorem async_batch_providers_counterexample:
  "card (providers_of aembed_many_on (trace (notebook bare_world))) \<noteq> 1"
  by code_simp

text \<open>The theorem of C3 at the world \<open>bare_world\<close>, whose run completes.\<close>

theorem async_batch_providers_witness:
  "status (notebook bare_world) = Running \<and>
   providers_of aembed_many_on (trace (notebook bare_world)) = {OpenAI, AzureOpenAI} \<and>
   providers_of embed_many_on (trace (notebook bare_world)) = {OpenAI, HuggingFace}"
  using async_batch_providers [of bare_world] bare_world_completes by simp

text \<open>
  Claim C4. In every run, whatever is loaded into the index is the list of records that
  pair the three sentences with the results of the HuggingFace \<^verbatim>\<open>embed_many\<close> call made
  with \<^verbatim>\<open>as_buffer=True\<close> on those sentences, a call that has been made; the vector of
  every such record is a byte buffer; and the index loaded into has the storage type
  \<^verbatim>\<open>hash\<close>. No other call of the notebook passes \<^verbatim>\<open>as_buffer\<close>. A run that
  completes makes that call and the load, and ends with \<^verbatim>\<open>embeddings\<close> bound to the
  buffers the call returned.
\<close>

theorem loaded_vectors_are_buffers:
  "(\<forall>i d. Load i d \<in> set (trace (notebook w)) \<longrightarrow>
      hf_batch_call \<in> set (trace (notebook w)) \<and>
      d = map (\<lambda>(t, v). [(''text'', S t), (''embedding'', E (Buffer (to_bytes w v)))])
            (zip three_sentences (embed_many_res w hf_batch_call)) \<and>
      (\<forall>r\<in>set d. \<exists>t b. r = [(''text'', S t), (''embedding'', E (Buffer b))]) \<and>
      storage_type (index_spec (index_schema i)) = ''hash'')
   \<and> list_all buffer_ok (trace (notebook w))
   \<and> (status (notebook w) = Running \<longrightarrow>
        hf_batch_call \<in> set (trace (notebook w)) \<and> list_ex is_load (trace (notebook w)) \<and>
        embeddings (notebook w) = map (returned w (Some True)) (embed_many_res w hf_batch_call))"
proof (intro conjI allI impI)
  fix i d assume l: "Load i d \<in> set (trace (notebook w))"
  from exact_trace [OF l] have e: "i = yaml_index" "d = loaded_records w" by simp_all
  show "hf_batch_call \<in> set (trace (notebook w))" using l by (rule load_after_batch)
  show "d = map (\<lambda>(t, v). [(''text'', S t), (''embedding'', E (Buffer (to_bytes w v)))])
            (zip three_sentences (embed_many_res w hf_batch_call))"
    using e(2) by (simp add: loaded_records_def)
  show "\<forall>r\<in>set d. \<exists>t b. r = [(''text'', S t), (''embedding'', E (Buffer b))]"
    using e(2) loaded_records_shape [of w] by simp
  show "storage_type (index_spec (index_schema i)) = ''hash''"
    using e(1) by (simp add: yaml_index_def schema_yaml_def)
next
  show "list_all buffer_ok (trace (notebook w))"
    using buffer_outline by (intro list_all_trace) simp_all
next
  assume r: "status (notebook w) = Running"
  show "hf_batch_call \<in> set (trace (notebook w))" using r by (rule completed_events(1))
  show "list_ex is_load (trace (notebook w))"
    using r index_ops_outline(2) by (intro list_ex_trace) simp_all
  from final_results(4) [OF r] show "embeddings (notebook w) = map (returned w (Some True)) (embed_many_res w hf_batch_call)"
    by (simp add: hf_buffers_def returned_def)
qed

text \<open>
  The theorem of C4 at the world \<open>bare_world\<close>, whose run completes and loads three
  records, each holding a buffer.
\<close>

theorem loaded_vectors_are_buffers_witness:
  "status (notebook bare_world) = Running \<and>
   Load yaml_index
     [[(''text'', S ''That is a happy dog''), (''embedding'', E (Buffer [1]))],
      [(''text'', S ''That is a happy person''), (''embedding'', E (Buffer [2]))],
      [(''text'', S ''Today is a sunny day''), (''embedding'', E (Buffer [3]))]]
     \<in> set (trace (notebook bare_world)) \<and>
   hf_batch_call \<in> set (trace (notebook bare_world)) \<and>
   storage_type (index_spec (index_schema yaml_index)) = ''hash'' \<and>
   embeddings (notebook bare_world) = [Buffer [1], Buffer [2], Buffer [3]]"
proof -
  have r: "status (notebook bare_world) = Running" by (rule bare_world_completes)
  have l: "Load yaml_index
     [[(''text'', S ''That is a happy dog''), (''embedding'', E (Buffer [1]))],
      [(''text'', S ''That is a happy person''), (''embedding'', E (Buffer [2]))],
      [(''text'', S ''Today is a sunny day''), (''embedding'', E (Buffer [3]))]]
     \<in> set (trace (notebook bare_world))" by code_simp
  have m: "map (returned bare_world (Some True)) (embed_many_res bare_world hf_batch_call)
     = [Buffer [1], Buffer [2], Buffer [3]]" by code_simp
  note t = loaded_vectors_are_buffers [of bare_world]
  from t [THEN conjunct1, rule_format, OF l]
  have a: "hf_batch_call \<in> set (trace (notebook bare_world))"
    "storage_type (index_spec (index_schema yaml_index)) = ''hash''" by simp_all
  from t r m have b: "embeddings (notebook bare_world) = [Buffer [1], Buffer [2], Buffer [3]]"
    by simp
  from r l a b show ?thesis by simp
qed

text \<open>
  Claim C5, as amended. In every run, for every provider the credentials are read before the
  client is built and the client is built before any embed call on it; every embed call
  comes before the index query and delete, and every embed call other than the query
  embedding (\<^verbatim>\<open>hf.embed("That is a happy cat")\<close>, made after create and load) comes before
  every index operation; the index operations come in the order create, load, query, delete
  and nothing follows delete. A run that completes performs all four and ends with delete.
\<close>

theorem flow_order:
  "flow_amended (trace (notebook w)) \<and>
   (status (notebook w) = Running \<longrightarrow>
      list_ex is_create (trace (notebook w)) \<and> list_ex is_load (trace (notebook w)) \<and>
      list_ex is_query (trace (notebook w)) \<and> is_delete (last (trace (notebook w))))"
proof (intro conjI impI)
  show "flow_amended (trace (notebook w))" by (rule flow_amended_trace)
next
  assume r: "status (notebook w) = Running"
  show "list_ex is_create (trace (notebook w))"
    using r index_ops_outline(1) by (intro list_ex_trace) simp_all
  show "list_ex is_load (trace (notebook w))"
    using r index_ops_outline(2) by (intro list_ex_trace) simp_all
  show "list_ex is_query (trace (notebook w))"
    using r index_ops_outline(3) by (intro list_ex_trace) simp_all
  have "map erase (trace (notebook w)) = outline w" using r by (rule trace_outline_complete)
  moreover from this have "trace (notebook w) \<noteq> []" using index_ops_outline(5) [of w] by auto
  ultimately have "erase (last (trace (notebook w))) = last (outline w)"
    by (metis last_map)
  with index_ops_outline(4) [of w] show "is_delete (last (trace (notebook w)))"
    by (metis is_delete_erase)
qed

text \<open>
  Claim C5 as stated fails: in the run with an empty environment an embed call (the query
  embedding) comes after index operations (create and load).
\<close>

theorem flow_order_counterexample: "\<not> flow_as_stated (trace (notebook bare_world))"
proof -
  have "\<not> no_later is_embed is_index_op (trace (notebook bare_world))"
    by code_simp
  then show ?thesis by (simp add: flow_as_stated_def)
qed

text \<open>The theorem of C5 at the world \<open>bare_world\<close>, whose run completes.\<close>

theorem flow_order_witness:
  "status (notebook bare_world) = Running \<and> flow_amended (trace (notebook bare_world)) \<and>
   list_ex is_load (trace (notebook bare_world)) \<and> is_delete (last (trace (notebook bare_world)))"
  using flow_order [of bare_world] bare_world_completes by simp

text \<open>
  Claim C6. In a run that completes, the nearest-neighbour query that was run is the
  \<^verbatim>\<open>VectorQuery\<close> of the notebook, with \<^verbatim>\<open>num_results=3\<close>, on the index built from the
  schema file; \<^verbatim>\<open>results\<close> is what \<^verbatim>\<open>index.query\<close> returned for it, at most three
  documents; of every two consecutive documents the first has a \<^verbatim>\<open>vector_distance\<close> that is
  at most that of the second; and the lines the loop printed last are those documents, in
  that order.
\<close>

theorem query_results_ordered:
  "status (notebook w) = Running \<longrightarrow>
     RunQuery yaml_index (notebook_query w) \<in> set (trace (notebook w)) \<and>
     num_results (notebook_query w) = 3 \<and>
     results (notebook w) = nearest 3 (query_res w (RunQuery yaml_index (notebook_query w))) \<and>
     length (results (notebook w)) \<le> 3 \<and>
     (\<forall>i. Suc i < length (results (notebook w)) \<longrightarrow>
        (\<exists>a b. map_of (results (notebook w) ! i) ''vector_distance'' = Some (N a) \<and>
               map_of (results (notebook w) ! Suc i) ''vector_distance'' = Some (N b) \<and>
               a \<le> b)) \<and>
     (\<exists>pre. stdout (notebook w) = pre @ map doc_line (results (notebook w)))"
proof (intro impI)
  assume r: "status (notebook w) = Running"
  have k: "results (notebook w) = nearest 3 (query_res w (query_call w))"
    "\<exists>pre. stdout (notebook w) = pre @ map doc_line (results (notebook w))"
    using final_results(1,3) [OF r] by (simp_all add: query_call_def)
  have q: "RunQuery yaml_index (notebook_query w) \<in> set (trace (notebook w))"
    using completed_events(5) [OF r] by (simp add: query_call_def)
  have n: "num_results (notebook_query w) = 3" by (simp add: notebook_query_def)
  have l: "length (results (notebook w)) \<le> 3" using k(1) nearest_length [of 3] by simp
  have o: "\<forall>i. Suc i < length (results (notebook w)) \<longrightarrow>
        (\<exists>a b. map_of (results (notebook w) ! i) ''vector_distance'' = Some (N a) \<and>
               map_of (results (notebook w) ! Suc i) ''vector_distance'' = Some (N b) \<and>
               a \<le> b)"
    using nearest_ordered [of _ 3 "query_res w (query_call w)"] by (simp add: k(1))
  from q n k(1) l o k(2) show "RunQuery yaml_index (notebook_query w) \<in> set (trace (notebook w)) \<and>
     num_results (notebook_query w) = 3 \<and>
     results (notebook w) = nearest 3 (query_res w (RunQuery yaml_index (notebook_query w))) \<and>
     length (results (notebook w)) \<le> 3 \<and>
     (\<forall>i. Suc i < length (results (notebook w)) \<longrightarrow>
        (\<exists>a b. map_of (results (notebook w) ! i) ''vector_distance'' = Some (N a) \<and>
               map_of (results (notebook w) ! Suc i) ''vector_distance'' = Some (N b) \<and>
               a \<le> b)) \<and>
     (\<exists>pre. stdout (notebook w) = pre @ map doc_line (results (notebook w)))"
    unfolding query_call_def by (intro conjI)
qed

text \<open>
  The theorem of C6 at the world \<open>bare_world\<close>, where the query matches four documents, at
  the distances 3/10, 7/10, 1/5 and 9/10 in that order: the run completes and the results
  are the three nearest, at the distances 1/5, 3/10 and 7/10.
\<close>

theorem query_results_ordered_witness:
  "status (notebook bare_world) = Running \<and>
   results (notebook bare_world) =
     [[(''vector_distance'', N (1 / 5)), (''text'', S ''That is a happy person'')],
      [(''vector_distance'', N (3 / 10)), (''text'', S ''That is a happy dog'')],
      [(''vector_distance'', N (7 / 10)), (''text'', S ''Today is a sunny day'')]] \<and>
   (\<exists>a b. map_of (results (notebook bare_world) ! 0) ''vector_distance'' = Some (N a) \<and>
          map_of (results (notebook bare_world) ! Suc 0) ''vector_distance'' = Some (N b) \<and>
          a \<le> b) \<and>
   (\<exists>a b. map_of (results (notebook bare_world) ! Suc 0) ''vector_distance'' = Some (N a) \<and>
          map_of (results (notebook bare_world) ! Suc (Suc 0)) ''vector_distance'' = Some (N b) \<and>
          a \<le> b)"
proof -
  have r: "status (notebook bare_world) = Running" by (rule bare_world_completes)
  note e = bare_world_run(1)
  have l: "Suc 0 < length (results (notebook bare_world))"
    "Suc (Suc 0) < length (results (notebook bare_world))" by (simp_all add: e)
  note t = query_results_ordered [of bare_world, rule_format, OF r]
  note o = t [THEN conjunct2, THEN conjunct2, THEN conjunct2, THEN conjunct2, THEN conjunct1,
      rule_format]
  from r e o [OF l(1)] o [OF l(2)] show ?thesis by blast
qed

text \<open>
  Claim C7. In every run the only call that builds a search index is
  \<^verbatim>\<open>SearchIndex.from_yaml("./schema.yaml")\<close>, and it comes before every use of an index;
  every index that is connected, created, loaded, queried or deleted is the one that call
  returned: its schema is the content of the file \<^verbatim>\<open>./schema.yaml\<close>, which declares the
  fields \<^verbatim>\<open>sentence\<close> and \<^verbatim>\<open>embedding\<close>, the latter a vector of 768 dimensions with the
  \<^verbatim>\<open>flat\<close> algorithm and the \<^verbatim>\<open>cosine\<close> distance. The only shell line is
  \<^verbatim>\<open>rvl index listall\<close>. A run that completes makes both calls and ends with
  \<^verbatim>\<open>index\<close> bound to that index.
\<close>

theorem index_from_yaml:
  "list_all from_yaml_ok (trace (notebook w)) \<and> list_all listing_ok (trace (notebook w)) \<and>
   has_before is_from_yaml uses_index (trace (notebook w)) \<and>
   (\<forall>ev\<in>set (trace (notebook w)). \<forall>i. index_of ev = Some i \<longrightarrow>
      schema_file ''./schema.yaml'' = Some (index_schema i) \<and>
      map name (field_decls (index_schema i)) = [''sentence'', ''embedding''] \<and>
      map attrs (field_decls (index_schema i)) =
        [None, Some \<lparr> dims = 768, algorithm = ''flat'', distance_metric = ''cosine'' \<rparr>]) \<and>
   (status (notebook w) = Running \<longrightarrow>
      list_ex is_from_yaml (trace (notebook w)) \<and> list_ex is_listing (trace (notebook w)) \<and>
      list_ex uses_index (trace (notebook w)) \<and>
      schema_file ''./schema.yaml'' = Some (index_schema (index (notebook w))))"
proof (intro conjI impI ballI allI)
  show "list_all from_yaml_ok (trace (notebook w))"
    using yaml_listing_outline(1) by (intro list_all_trace) simp_all
  show "list_all listing_ok (trace (notebook w))"
    using yaml_listing_outline(2) by (intro list_all_trace) simp_all
  show "has_before is_from_yaml uses_index (trace (notebook w))"
    using yaml_listing_outline(5) by (intro has_before_trace) simp_all
next
  fix ev i assume "ev \<in> set (trace (notebook w))" "index_of ev = Some i"
  then have i: "i = yaml_index" using exact_trace [of ev w] index_of_exact [of w ev i] by simp
  show "schema_file ''./schema.yaml'' = Some (index_schema i)"
    by (simp add: i yaml_index_def schema_file_def)
  show "map name (field_decls (index_schema i)) = [''sentence'', ''embedding'']"
    by (simp add: i yaml_index_def schema_yaml_def)
  show "map attrs (field_decls (index_schema i)) =
        [None, Some \<lparr> dims = 768, algorithm = ''flat'', distance_metric = ''cosine'' \<rparr>]"
    by (simp add: i yaml_index_def schema_yaml_def)
next
  assume r: "status (notebook w) = Running"
  show "list_ex is_from_yaml (trace (notebook w))"
    using r yaml_listing_outline(3) by (intro list_ex_trace) simp_all
  show "list_ex is_listing (trace (notebook w))"
    using r yaml_listing_outline(4) by (intro list_ex_trace) simp_all
  have "list_ex is_create (trace (notebook w))"
    using r index_ops_outline(1) by (intro list_ex_trace) simp_all
  then obtain ev where ev: "ev \<in> set (trace (notebook w))" "is_create ev"
    by (auto simp: list_ex_iff)
  from ev(2) have "uses_index ev" by (cases ev) simp_all
  with ev(1) show "list_ex uses_index (trace (notebook w))" by (auto simp: list_ex_iff)
  from final_results(5) [OF r] show "schema_file ''./schema.yaml'' = Some (index_schema (index (notebook w)))"
    by (simp add: yaml_index_def schema_file_def)
qed

text \<open>
  The theorem of C7 at the world \<open>bare_world\<close>, whose run completes: the index it creates
  and the index it deletes have the schema of the file.
\<close>

theorem index_from_yaml_witness:
  "status (notebook bare_world) = Running \<and>
   Create (SearchIndex schema_yaml) True \<in> set (trace (notebook bare_world)) \<and>
   Delete (SearchIndex schema_yaml) \<in> set (trace (notebook bare_world)) \<and>
   schema_file ''./schema.yaml'' = Some schema_yaml \<and>
   map name (field_decls schema_yaml) = [''sentence'', ''embedding''] \<and>
   index (notebook bare_world) = SearchIndex schema_yaml \<and>
   list_ex is_from_yaml (trace (notebook bare_world)) \<and>
   list_ex is_listing (trace (notebook bare_world))"
proof -
  have r: "status (notebook bare_world) = Running" by (rule bare_world_completes)
  have m: "Create (SearchIndex schema_yaml) True \<in> set (trace (notebook bare_world))"
    "Delete (SearchIndex schema_yaml) \<in> set (trace (notebook bare_world))"
    "index (notebook bare_world) = SearchIndex schema_yaml" by code_simp+
  note t = index_from_yaml [of bare_world]
  from t [THEN conjunct2, THEN conjunct2, THEN conjunct2, THEN conjunct1, rule_format, OF m(1),
      of "SearchIndex schema_yaml"]
  have a: "schema_file ''./schema.yaml'' = Some schema_yaml"
    "map name (field_decls schema_yaml) = [''sentence'', ''embedding'']" by simp_all
  from t r have b: "list_ex is_from_yaml (trace (notebook bare_world))"
    "list_ex is_listing (trace (notebook bare_world))" by simp_all
  from r m a b show ?thesis by simp
qed

text \<open>
  Claim C8. In every run, the records of every load are the ones built from the three
  sentences and the HuggingFace buffers, each with exactly the keys \<^verbatim>\<open>text\<close> and
  \<^verbatim>\<open>embedding\<close>, in that order, and they are loaded into an index whose schema does not
  declare a field \<^verbatim>\<open>text\<close>: its one field of type text is named \<^verbatim>\<open>sentence\<close>. Every query
  that is built or run asks for the return field \<^verbatim>\<open>text\<close>. In a run that completes the load
  and the query have been made, every document the query returned has the field
  \<^verbatim>\<open>text\<close>, and the lines printed last are \<^verbatim>\<open>doc["text"]\<close> and
  \<^verbatim>\<open>doc["vector_distance"]\<close> of those documents.
\<close>

theorem record_and_schema_fields:
  "(\<forall>i d. Load i d \<in> set (trace (notebook w)) \<longrightarrow>
      d = loaded_records w \<and> (\<forall>r\<in>set d. map fst r = [''text'', ''embedding'']) \<and>
      ''text'' \<notin> set (map name (field_decls (index_schema i))) \<and>
      map name (filter (\<lambda>f. type f = ''text'') (field_decls (index_schema i))) = [''sentence''])
   \<and> (\<forall>q. NewQuery q \<in> set (trace (notebook w)) \<longrightarrow> return_fields q = [''text''])
   \<and> (\<forall>i q. RunQuery i q \<in> set (trace (notebook w)) \<longrightarrow> return_fields q = [''text''])
   \<and> (status (notebook w) = Running \<longrightarrow>
        Load yaml_index (loaded_records w) \<in> set (trace (notebook w)) \<and>
        length (loaded_records w) = min 3 (length (embed_many_res w hf_batch_call)) \<and>
        RunQuery yaml_index (notebook_query w) \<in> set (trace (notebook w)) \<and>
        results (notebook w) = nearest 3 (query_res w (RunQuery yaml_index (notebook_query w))) \<and>
        (\<forall>d\<in>set (results (notebook w)). map_of d ''text'' \<noteq> None) \<and>
        (\<exists>pre. stdout (notebook w) = pre @ map doc_line (results (notebook w))))"
proof (intro conjI allI impI)
  fix i d assume l: "Load i d \<in> set (trace (notebook w))"
  from exact_trace [OF l] have e: "i = yaml_index" "d = loaded_records w" by simp_all
  show "d = loaded_records w" by (rule e(2))
  show "\<forall>r\<in>set d. map fst r = [''text'', ''embedding'']"
    using e(2) loaded_records_shape [of w] by fastforce
  show "''text'' \<notin> set (map name (field_decls (index_schema i)))"
    by (simp add: e(1) yaml_index_def schema_yaml_def)
  show "map name (filter (\<lambda>f. type f = ''text'') (field_decls (index_schema i))) = [''sentence'']"
    by (simp add: e(1) yaml_index_def schema_yaml_def)
next
  fix q assume "NewQuery q \<in> set (trace (notebook w))"
  from exact_trace [OF this] show "return_fields q = [''text'']" by (simp add: notebook_query_def)
next
  fix i q assume "RunQuery i q \<in> set (trace (notebook w))"
  from exact_trace [OF this] show "return_fields q = [''text'']" by (simp add: notebook_query_def)
next
  assume r: "status (notebook w) = Running"
  show "Load yaml_index (loaded_records w) \<in> set (trace (notebook w))"
    using r by (rule completed_events(2))
  show "length (loaded_records w) = min 3 (length (embed_many_res w hf_batch_call))"
    by (rule loaded_records_length)
  show "RunQuery yaml_index (notebook_query w) \<in> set (trace (notebook w))"
    using completed_events(5) [OF r] by (simp add: query_call_def)
  show "results (notebook w) = nearest 3 (query_res w (RunQuery yaml_index (notebook_query w)))"
    "\<forall>d\<in>set (results (notebook w)). map_of d ''text'' \<noteq> None"
    "\<exists>pre. stdout (notebook w) = pre @ map doc_line (results (notebook w))"
    using final_results(1-3) [OF r] by blast+
qed

text \<open>
  The theorem of C8 at the world \<open>bare_world\<close>, whose run completes: three records are
  loaded, and the three lines printed last are the texts and distances of the results.
\<close>

theorem record_and_schema_fields_witness:
  "status (notebook bare_world) = Running \<and>
   Load yaml_index (loaded_records bare_world) \<in> set (trace (notebook bare_world)) \<and>
   loaded_records bare_world =
     [[(''text'', S ''That is a happy dog''), (''embedding'', E (Buffer [1]))],
      [(''text'', S ''That is a happy person''), (''embedding'', E (Buffer [2]))],
      [(''text'', S ''Today is a sunny day''), (''embedding'', E (Buffer [3]))]] \<and>
   ''text'' \<notin> set (map name (field_decls (index_schema yaml_index))) \<and>
   return_fields (notebook_query bare_world) = [''text''] \<and>
   map (\<lambda>d. map_of d ''text'') (results (notebook bare_world)) =
     [Some (S ''That is a happy person''), Some (S ''That is a happy dog''),
      Some (S ''Today is a sunny day'')] \<and>
   drop 14 (stdout (notebook bare_world)) =
     [Print [S ''That is a happy person'', N (1 / 5)],
      Print [S ''That is a happy dog'', N (3 / 10)],
      Print [S ''Today is a sunny day'', N (7 / 10)]]"
proof -
  have r: "status (notebook bare_world) = Running" by (rule bare_world_completes)
  note t = record_and_schema_fields [of bare_world]
  from t r have l: "Load yaml_index (loaded_records bare_world) \<in> set (trace (notebook bare_world))"
    and q: "RunQuery yaml_index (notebook_query bare_world) \<in> set (trace (notebook bare_world))"
    by simp_all
  from t [THEN conjunct1, rule_format, OF l]
  have a: "''text'' \<notin> set (map name (field_decls (index_schema yaml_index)))" by simp
  from t [THEN conjunct2, THEN conjunct2, THEN conjunct1, rule_format, OF q]
  have b: "return_fields (notebook_query bare_world) = [''text'']" .
  have c: "map (\<lambda>d. map_of d ''text'') (results (notebook bare_world)) =
     [Some (S ''That is a happy person''), Some (S ''That is a happy dog''),
      Some (S ''Today is a sunny day'')]" by (simp add: bare_world_run(1))
  have d: "drop 14 (stdout (notebook bare_world)) =
     [Print [S ''That is a happy person'', N (1 / 5)],
      Print [S ''That is a happy dog'', N (3 / 10)],
      Print [S ''Today is a sunny day'', N (7 / 10)]]" by code_simp
  show ?thesis by (intro conjI r l bare_world_run(2) a b c d)
qed

end
